theory Spec2Isabelle
  imports Complex_Main "HOL-Library.Word" "HOL-Library.Sublist"
begin

section \<open>JavaScript strings\<close>

text \<open>
  A JavaScript string is modelled as the list of its code units, one \<open>char\<close> for each,
  so a \<open>char\<close> is the code point of the same number, \<open>U+0000\<close> to \<open>U+00FF\<close>
  (it is not a byte of an encoding). Strings with a code unit above \<open>U+00FF\<close> are
  outside the model. Only the string methods that \<^verbatim>\<open>astro_opt.ts\<close> calls are
  modelled.

  \<^verbatim>\<open>toLowerCase\<close> on these code points: the capitals \<open>A\<close> to \<open>Z\<close>, and the
  accented capitals \<open>U+00C0\<close> to \<open>U+00DE\<close> without the multiplication sign
  \<open>U+00D7\<close>, go to the letter 32 places up; every other code point stays.
\<close>

type_synonym path = string

definition capitals :: string where
  "capitals =
     ''ABCDEFGHIJKLMNOPQRSTUVWXYZ''
     @ [CHR 0xC0, CHR 0xC1, CHR 0xC2, CHR 0xC3, CHR 0xC4, CHR 0xC5, CHR 0xC6, CHR 0xC7,
        CHR 0xC8, CHR 0xC9, CHR 0xCA, CHR 0xCB, CHR 0xCC, CHR 0xCD, CHR 0xCE, CHR 0xCF,
        CHR 0xD0, CHR 0xD1, CHR 0xD2, CHR 0xD3, CHR 0xD4, CHR 0xD5, CHR 0xD6,
        CHR 0xD8, CHR 0xD9, CHR 0xDA, CHR 0xDB, CHR 0xDC, CHR 0xDD, CHR 0xDE]"

definition smalls :: string where
  "smalls =
     ''abcdefghijklmnopqrstuvwxyz''
     @ [CHR 0xE0, CHR 0xE1, CHR 0xE2, CHR 0xE3, CHR 0xE4, CHR 0xE5, CHR 0xE6, CHR 0xE7,
        CHR 0xE8, CHR 0xE9, CHR 0xEA, CHR 0xEB, CHR 0xEC, CHR 0xED, CHR 0xEE, CHR 0xEF,
        CHR 0xF0, CHR 0xF1, CHR 0xF2, CHR 0xF3, CHR 0xF4, CHR 0xF5, CHR 0xF6,
        CHR 0xF8, CHR 0xF9, CHR 0xFA, CHR 0xFB, CHR 0xFC, CHR 0xFD, CHR 0xFE]"

definition lower_char :: "char \<Rightarrow> char" where
  "lower_char c = (case map_of (zip capitals smalls) c of None \<Rightarrow> c | Some d \<Rightarrow> d)"

definition toLowerCase :: "string \<Rightarrow> string" where
  "toLowerCase s = map lower_char s"

text \<open>\<^verbatim>\<open>s.includes(sub)\<close>: \<open>sub\<close> occurs in \<open>s\<close> as a contiguous run.\<close>

fun str_includes :: "string \<Rightarrow> string \<Rightarrow> bool" where
  "str_includes [] sub = (sub = [])"
| "str_includes (c # cs) sub = (prefix sub (c # cs) \<or> str_includes cs sub)"

text \<open>\<^verbatim>\<open>s.lastIndexOf(c)\<close> for a one-character needle; \<open>-1\<close> when it does not occur.\<close>

definition lastIndexOf :: "string \<Rightarrow> char \<Rightarrow> int" where
  "lastIndexOf s c =
     (if c \<in> set s
      then int (length s) - 1 - int (length (takeWhile (\<lambda>x. x \<noteq> c) (rev s)))
      else - 1)"

text \<open>
  \<^verbatim>\<open>s.substring(a, b)\<close>: both indices are clamped to \<open>0..length s\<close> and swapped
  when \<open>a > b\<close>.
\<close>

definition substring :: "string \<Rightarrow> int \<Rightarrow> int \<Rightarrow> string" where
  "substring s a b =
     (let n = int (length s);
          a' = max 0 (min a n);
          b' = max 0 (min b n);
          lo = min a' b';
          hi = max a' b'
      in take (nat (hi - lo)) (drop (nat lo) s))"

text \<open>\<^verbatim>\<open>s.substring(a)\<close>: to the end of the string.\<close>

definition substring_from :: "string \<Rightarrow> int \<Rightarrow> string" where
  "substring_from s a = substring s a (int (length s))"

text \<open>
  \<^verbatim>\<open>s.replace(pat, rep)\<close> with a string pattern: only the first occurrence is
  replaced. (The replacement strings of the program contain no \<^verbatim>\<open>$\<close>.)
\<close>

fun str_replace :: "string \<Rightarrow> string \<Rightarrow> string \<Rightarrow> string" where
  "str_replace [] pat rep = (if pat = [] then rep else [])"
| "str_replace (c # cs) pat rep =
     (if prefix pat (c # cs) then rep @ drop (length pat) (c # cs)
      else c # str_replace cs pat rep)"

text \<open>\<^verbatim>\<open>s.split(c)\<close> for a one-character separator.\<close>

fun str_split :: "string \<Rightarrow> char \<Rightarrow> string list" where
  "str_split [] c = [[]]"
| "str_split (x # xs) c =
     (if x = c then [] # str_split xs c
      else (case str_split xs c of
              [] \<Rightarrow> [[x]]
            | y # ys \<Rightarrow> (x # y) # ys))"

fun join_with :: "char \<Rightarrow> string list \<Rightarrow> string" where
  "join_with c [] = []"
| "join_with c [s] = s"
| "join_with c (s # t # ss) = s @ c # join_with c (t # ss)"


section \<open>The POSIX path module of the runtime\<close>

text \<open>
  The program replaces the literal \<^verbatim>\<open>/public_dev\<close> in its paths, so it is written for
  the POSIX flavour of Node's \<^verbatim>\<open>path\<close> module, which is the one modelled here:
  \<^verbatim>\<open>path.sep\<close>, \<^verbatim>\<open>path.extname\<close>, \<^verbatim>\<open>path.basename\<close>,
  \<^verbatim>\<open>path.normalize\<close> and \<^verbatim>\<open>path.join\<close>.
\<close>

definition path_sep :: char where
  "path_sep = CHR ''/''"

text \<open>The last component of a path, trailing separators ignored.\<close>

definition last_part :: "path \<Rightarrow> string" where
  "last_part p =
     rev (takeWhile (\<lambda>c. c \<noteq> path_sep) (dropWhile (\<lambda>c. c = path_sep) (rev p)))"

text \<open>
  \<^verbatim>\<open>path.extname\<close>: from the last dot of the last component to its end; empty when
  the component has no dot, when its only dot is its first character, and for the
  component \<^verbatim>\<open>..\<close>.
\<close>

definition path_extname :: "path \<Rightarrow> string" where
  "path_extname p =
     (let b = last_part p;
          k = length (takeWhile (\<lambda>c. c \<noteq> CHR ''.'') (rev b))
      in if Suc k = length b \<or> b = ''..'' \<or> CHR ''.'' \<notin> set b then []
         else drop (length b - Suc k) b)"

text \<open>
  \<^verbatim>\<open>path.basename(p, suf)\<close>: the last component, without \<open>suf\<close> when the component
  ends with it and is longer than it. The comparison is case-sensitive. The two corner
  cases of Node's loop are kept: a path equal to the suffix gives the empty string, and a
  component that is a proper tail of the suffix is returned with the path's trailing
  separators.
\<close>

definition path_basename :: "path \<Rightarrow> string \<Rightarrow> string" where
  "path_basename p suf =
     (let b = last_part p in
      if suf \<noteq> [] \<and> length suf \<le> length p then
        (if suf = p then []
         else if length b < length suf \<and> prefix (rev b) (rev suf)
           then drop (length (dropWhile (\<lambda>c. c = path_sep) (rev p)) - length b) p
         else if prefix (rev suf) (rev b)
           then (if b = suf then b else take (length b - length suf) b)
         else b)
      else b)"

text \<open>
  \<^verbatim>\<open>normalizeString\<close> on the list of components: empty and \<^verbatim>\<open>.\<close> components
  are dropped, \<^verbatim>\<open>..\<close> removes the component before it; above the start it is kept
  only for a relative path.
\<close>

fun normalizeString :: "bool \<Rightarrow> string list \<Rightarrow> string list \<Rightarrow> string list" where
  "normalizeString allowAboveRoot acc [] = rev acc"
| "normalizeString allowAboveRoot acc (s # ss) =
     (if s = [] \<or> s = ''.'' then normalizeString allowAboveRoot acc ss
      else if s = ''..'' then
        (case acc of
           [] \<Rightarrow> normalizeString allowAboveRoot (if allowAboveRoot then [''..''] else []) ss
         | a # acc' \<Rightarrow>
             if a = ''..'' then normalizeString allowAboveRoot (''..'' # acc) ss
             else normalizeString allowAboveRoot acc' ss)
      else normalizeString allowAboveRoot (s # acc) ss)"

definition path_normalize :: "path \<Rightarrow> path" where
  "path_normalize p =
     (if p = [] then ''.''
      else
        let isAbsolute = (hd p = path_sep);
            trailingSeparator = (last p = path_sep);
            q = join_with path_sep (normalizeString (\<not> isAbsolute) [] (str_split p path_sep))
        in if q = [] then (if isAbsolute then ''/'' else if trailingSeparator then ''./'' else ''.'')
           else (if isAbsolute then [path_sep] else []) @ q
                @ (if trailingSeparator then [path_sep] else []))"

text \<open>\<^verbatim>\<open>path.join(a, b)\<close>: the non-empty arguments joined by a separator, normalised.\<close>

definition path_join :: "path \<Rightarrow> path \<Rightarrow> path" where
  "path_join a b =
     (let joined = (if a = [] then b else if b = [] then a else a @ path_sep # b)
      in if joined = [] then ''.'' else path_normalize joined)"

text \<open>
  \<^verbatim>\<open>path.resolve('./')\<close> is the working directory \<open>cwd\<close> of the process, an absolute
  normalised path; \<^verbatim>\<open>path.resolve('./name')\<close> is the entry \<open>name\<close> in it.
\<close>

definition path_resolve :: "path \<Rightarrow> string \<Rightarrow> path" where
  "path_resolve cwd name =
     (if name = [] then cwd else if cwd = ''/'' then path_sep # name else cwd @ path_sep # name)"


section \<open>Configuration\<close>

definition imageExtensions :: "string list" where
  "imageExtensions = [''.png'', ''.jpg'', ''.gif'']"

definition audioExtensions :: "string list" where
  "audioExtensions = [''.mp3'', ''.m4a'', ''.wav'', ''.flac'', ''.opus'', ''.aac'']"

definition videoExtensions :: "string list" where
  "videoExtensions = [''.mp4'', ''.mov'']"

definition fontExtensions :: "string list" where
  "fontExtensions = [''.ttf'', ''.woff2'']"

definition watchDir :: "path \<Rightarrow> path" where
  "watchDir cwd = path_resolve cwd ''public_dev''"

definition cacheDir :: "path \<Rightarrow> path" where
  "cacheDir cwd = path_resolve cwd ''opt_cache''"


section \<open>The watcher's filter and the backfill pass\<close>

text \<open>
  The function given to \<^verbatim>\<open>chokidar.watch\<close> as its \<^verbatim>\<open>ignored\<close> option
  (lines 21 to 24).
\<close>

definition ignored :: "path \<Rightarrow> bool" where
  "ignored filePath =
     (let ext = toLowerCase (path_extname filePath)
      in length ext > 0 \<and>
         (ext \<in> set imageExtensions \<or> ext \<in> set audioExtensions \<or>
          ext \<in> set videoExtensions \<or> ext \<in> set fontExtensions))"

text \<open>
  The watch library's contract for that option: a path for which the function returns
  true is excluded from watching, so the handlers are called for the other paths only.
\<close>

definition delivered :: "path \<Rightarrow> bool" where
  "delivered filePath = (\<not> ignored filePath)"

text \<open>The test of the backfill pass on each entry of the listing (lines 32 and 33).\<close>

definition backfill_matches :: "path \<Rightarrow> bool" where
  "backfill_matches filePath =
     (let ext = toLowerCase (path_extname filePath)
      in length ext > 0 \<and>
         (ext \<in> set imageExtensions \<or> ext \<in> set audioExtensions \<or>
          ext \<in> set videoExtensions \<or> ext \<in> set fontExtensions))"

text \<open>
  The backfill pass (lines 29 to 45). \<^verbatim>\<open>forEach\<close> calls the asynchronous callback on
  every entry without waiting, so the jobs of all matching entries are in flight together;
  \<open>running\<close> holds the indices of the jobs that have not settled. When the job of entry
  \<open>index\<close> settles, its callback goes on to
  \<^verbatim>\<open>if (index === array.length - 1) resolve()\<close>, and the resolved promise attaches
  the watcher's handlers: \<open>live\<close>. The order in which the jobs settle is the
  environment's; \<open>settle_in_order\<close> replays one such order.
\<close>

record dispatcher =
  running :: "nat list"
  live :: bool

definition backfill_start :: "path list \<Rightarrow> dispatcher" where
  "backfill_start listing =
     \<lparr>running = filter (\<lambda>i. backfill_matches (listing ! i)) [0..<length listing],
      live = False\<rparr>"

definition job_settles :: "path list \<Rightarrow> nat \<Rightarrow> dispatcher \<Rightarrow> dispatcher" where
  "job_settles listing index d =
     (if index \<in> set (running d)
      then \<lparr>running = removeAll index (running d),
            live = (live d \<or> int index = int (length listing) - 1)\<rparr>
      else d)"

definition settle_in_order :: "path list \<Rightarrow> nat list \<Rightarrow> dispatcher" where
  "settle_in_order listing order =
     foldl (\<lambda>d index. job_settles listing index d) (backfill_start listing) order"


section \<open>The pure decisions of \<^verbatim>\<open>optimise\<close>\<close>

text \<open>
  Line 61: the output path before a strategist appends its extension. \<open>ext\<close> is the
  lowercased extension that \<^verbatim>\<open>handleFileChange\<close> passes in.
\<close>

definition outputFilePath :: "path \<Rightarrow> string \<Rightarrow> path" where
  "outputFilePath filePath ext =
     path_join
       (str_replace (substring filePath 0 (lastIndexOf filePath path_sep))
          ''/public_dev'' ''/public'' @ [path_sep])
       (path_basename filePath ext)"

text \<open>Line 64: the directory handed to \<^verbatim>\<open>fs.mkdir\<close>.\<close>

definition outputDir :: "path \<Rightarrow> path" where
  "outputDir out = substring out 0 (lastIndexOf out path_sep)"

text \<open>Line 85: the format of a raster image.\<close>

definition image_format :: "path \<Rightarrow> path \<Rightarrow> string" where
  "image_format cwd filePath =
     (if int (length (str_split (substring_from filePath (int (length cwd))) path_sep)) - 1 = 2
      then ''png'' else ''avif'')"

text \<open>
  Lines 71 to 77. \<^verbatim>\<open>beforeSize\<close> and \<^verbatim>\<open>afterSize\<close> are
  \<^verbatim>\<open>number | undefined\<close>; \<open>None\<close> is \<^verbatim>\<open>undefined\<close>. The test
  \<^verbatim>\<open>beforeSize && afterSize\<close> is JavaScript truthiness: \<^verbatim>\<open>undefined\<close> and
  \<open>0\<close> are both false.

  JavaScript numbers are IEEE doubles. The code's \<^verbatim>\<open>dif\<close> is the double that one
  division and one multiplication give; the \<open>dif\<close> of the model is the exact value
  \<open>x\<close> of \<open>(before - after) / before * 100\<close>. For sizes that are integers below
  \<open>2^53\<close> the two have the same sign, which is all the code tests, and the code's
  double is a function of \<open>x\<close>. The digits are the parameter \<open>toFixed\<close>, which stands
  for everything between \<open>x\<close> and the text \<^verbatim>\<open>dif.toFixed(3)\<close>: rounding to doubles
  as the code does, and rendering.
\<close>

definition esc :: char where
  "esc = CHR 0x1B"

definition getDif :: "(rat \<Rightarrow> string) \<Rightarrow> nat option \<Rightarrow> nat option \<Rightarrow> string" where
  "getDif toFixed beforeSize afterSize =
     (case (beforeSize, afterSize) of
        (Some b, Some a) \<Rightarrow>
          if b \<noteq> 0 \<and> a \<noteq> 0 then
            (let dif = ((of_nat b - of_nat a) / of_nat b) * 100
             in (if dif > 0 then esc # ''[32m'' else if dif < 0 then esc # ''[31m'' else [])
                @ ''['' @ toFixed dif @ ''% ''
                @ (if dif > 0 then ''reduced'' else if dif < 0 then ''gained'' else [])
                @ '']'' @ esc # ''[0m'')
          else ''[DIF ERROR]''
      | _ \<Rightarrow> ''[DIF ERROR]'')"

text \<open>
  The nearest double of a rational (ties to the even mantissa), for values in the normal
  range of doubles, where the quotients of file sizes lie: the value is scaled by a power
  of two into \<open>2^52 \<le> y < 2^53\<close> and \<open>y\<close> is rounded to an integer.
\<close>

primrec normal_exponent :: "nat \<Rightarrow> rat \<Rightarrow> int \<Rightarrow> int" where
  "normal_exponent 0 x e = e"
| "normal_exponent (Suc fuel) x e =
     (if 2 ^ 53 \<le> x then normal_exponent fuel (x / 2) (e + 1)
      else if x < 2 ^ 52 then normal_exponent fuel (x * 2) (e - 1)
      else e)"

definition pow2 :: "int \<Rightarrow> rat" where
  "pow2 e = (if 0 \<le> e then 2 ^ nat e else 1 / 2 ^ nat (- e))"

definition round_even :: "rat \<Rightarrow> int" where
  "round_even y =
     (let f = \<lfloor>y\<rfloor>; r = y - of_int f
      in if 1 / 2 < r \<or> (r = 1 / 2 \<and> odd f) then f + 1 else f)"

definition binary64 :: "rat \<Rightarrow> rat" where
  "binary64 x =
     (if x = 0 then 0
      else let e = normal_exponent 2200 \<bar>x\<bar> 0
           in sgn x * of_int (round_even (\<bar>x\<bar> / pow2 e)) * pow2 e)"

text \<open>
  \<^verbatim>\<open>d.toFixed(3)\<close> of a double \<open>d\<close> below \<open>10^21\<close>: the integer \<open>n\<close> for
  which \<open>n / 1000\<close> is nearest to the magnitude of \<open>d\<close>, the larger one at a tie,
  written with three digits after the point and a minus sign when \<open>d < 0\<close>.
\<close>

definition digit_char :: "nat \<Rightarrow> char" where
  "digit_char n = ''0123456789'' ! (n mod 10)"

fun digits :: "nat \<Rightarrow> string" where
  "digits n = (if n < 10 then [digit_char n] else digits (n div 10) @ [digit_char n])"

definition toFixed_double :: "rat \<Rightarrow> string" where
  "toFixed_double d =
     (let n = nat \<lfloor>\<bar>d\<bar> * 1000 + 1 / 2\<rfloor>
      in (if d < 0 then ''-'' else []) @ digits (n div 1000) @ ''.''
         @ [digit_char (n div 100), digit_char (n div 10), digit_char n])"

text \<open>
  The renderer of the code, from the exact value \<open>x\<close> of
  \<open>(before - after) / before * 100\<close>: \<open>x / 100\<close> is the exact quotient, the code
  divides and multiplies in doubles, and \<^verbatim>\<open>toFixed(3)\<close> renders the double it got.
  The difference of two integer sizes is exact in doubles.
\<close>

definition toFixed3 :: "rat \<Rightarrow> string" where
  "toFixed3 x = toFixed_double (binary64 (binary64 (x / 100) * 100))"

text \<open>
  Lines 157 to 169: the command of the video strategist, from the text that
  \<^verbatim>\<open>ffmpeg -encoders\<close> printed.
\<close>

definition dq :: string where
  "dq = [CHR 0x22]"

definition ffmpegCommand :: "string \<Rightarrow> path \<Rightarrow> path \<Rightarrow> string" where
  "ffmpegCommand encoders filePath out =
     (if str_includes encoders ''av1_nvenc'' then
        ''ffmpeg -i '' @ dq @ filePath @ dq
        @ '' -c:v av1_nvenc -preset p7 -cq 30 -b:v 0 '' @ dq @ out @ dq @ ''.mp4 -y''
      else if str_includes encoders ''av1_qsv'' then
        ''ffmpeg -init_hw_device vaapi=va:/dev/dri/renderD128 -i '' @ dq @ filePath @ dq
        @ '' -c:v av1_qsv -preset veryslow -q:v 30 -b:v 0 '' @ dq @ out @ dq @ ''.mp4 -y''
      else if str_includes encoders ''av1_amf'' then
        ''ffmpeg -i '' @ dq @ filePath @ dq
        @ '' -c:v av1_amf -usage quality -rc vbr_quality -q:v 20 -b:v 0 '' @ dq @ out @ dq
        @ ''.mp4 -y''
      else
        ''ffmpeg -i '' @ dq @ filePath @ dq
        @ '' -c:v libaom-av1 -crf 30 -b:v 0 -preset slow '' @ dq @ out @ dq @ ''.mp4 -y'')"

text \<open>Line 142: the command of the audio strategist.\<close>

definition audioCommand :: "path \<Rightarrow> path \<Rightarrow> string" where
  "audioCommand filePath out =
     ''ffmpeg -i '' @ dq @ filePath @ dq
     @ '' -c:a libfdk_aac -profile:a aac_he_v2 -b:a 48k -cutoff 18000 -ar 48000 -ac 2 -map_metadata 0 ''
     @ dq @ out @ dq @ ''.aac -y''"


section \<open>The file system and the external services\<close>

text \<open>
  \<^verbatim>\<open>optimise\<close> works on the file system through promises. The model threads a
  \<open>world\<close>: the regular files with their bytes, the directories, and the calls that
  changed or launched something, in the order they were made. A promise that settles is
  \<open>Resolved\<close> with a value or \<open>Rejected\<close> with a message; a rejection keeps
  the world the call left behind. Console output is not part of the world.
\<close>

type_synonym buffer = "8 word list"

datatype 'a settled = Resolved 'a | Rejected string

datatype call = MkdirP path | Unlink path | WriteTo path | Exec string

record world =
  files :: "path \<Rightarrow> buffer option"
  dirs :: "path set"
  calls :: "call list"

text \<open>
  What the codecs, the external encoder and the operating system answer is not decided by
  the program. It is the \<open>services\<close> of a run: every theorem about \<open>optimise\<close> holds
  for all of them, and an evaluation fixes one.
\<close>

record metadata =
  width :: "nat option"
  height :: "nat option"
  hasAlpha :: "bool option"

datatype resize = NoResize | ToWidth nat | ToHeight nat

datatype sharp_input = FromFile path resize | FromRaw buffer nat nat nat

record encoder_config =
  quality :: nat
  effort :: nat
  chromaSubsampling :: string
  progressive :: bool

text \<open>
  An encoder either writes its whole output, or fails; failing, it may leave the bytes it
  had written so far.
\<close>

datatype encoding = Encoded buffer | Aborted "buffer option" string

text \<open>
  A failing \<^verbatim>\<open>fs.writeFile\<close> or \<^verbatim>\<open>fs.copyFile\<close> either leaves the path
  untouched or leaves the first bytes of the data there.
\<close>

datatype fault = Untouched string | Truncated nat string

text \<open>
  A child process: whether it exited with status 0, what it printed, and the files it
  wrote before it exited.
\<close>

record process =
  exit_ok :: bool
  stdout :: string
  written :: "(path \<times> buffer) list"

record services =
  mkdir_rejects :: "path \<Rightarrow> bool"
  sharp_metadata :: "path \<Rightarrow> metadata settled"
  sharp_raw :: "path \<Rightarrow> resize \<Rightarrow> (buffer \<times> nat \<times> nat) settled"
  sharp_toFile :: "sharp_input \<Rightarrow> string \<Rightarrow> encoder_config \<Rightarrow> path \<Rightarrow> encoding"
  svgo_optimize :: "buffer \<Rightarrow> buffer settled"
  ttf2woff2 :: "buffer \<Rightarrow> buffer settled"
  write_fault :: "path \<Rightarrow> fault option"
  child :: "string \<Rightarrow> process"

text \<open>Sequencing with \<^verbatim>\<open>await\<close>: a rejection skips the rest.\<close>

definition await :: "'a settled \<times> world \<Rightarrow> ('a \<Rightarrow> world \<Rightarrow> 'b settled \<times> world) \<Rightarrow> 'b settled \<times> world" where
  "await m k = (case m of (Rejected e, w) \<Rightarrow> (Rejected e, w) | (Resolved x, w) \<Rightarrow> k x w)"

text \<open>\<^verbatim>\<open>.catch(...)\<close> with a handler that only logs, and a \<^verbatim>\<open>try\<close> whose
  \<^verbatim>\<open>catch\<close> only logs.\<close>

definition swallow :: "'a settled \<times> world \<Rightarrow> unit settled \<times> world" where
  "swallow m = (Resolved (), snd m)"

text \<open>The directories \<^verbatim>\<open>fs.mkdir(d, { recursive: true })\<close> makes: \<open>d\<close> and its ancestors.\<close>

definition ancestors :: "path \<Rightarrow> path list" where
  "ancestors d =
     map (\<lambda>k. take k d)
       (filter (\<lambda>k. 0 < k \<and> (k = length d \<or> d ! k = path_sep)) [0..<Suc (length d)])"

definition fs_mkdir :: "services \<Rightarrow> path \<Rightarrow> world \<Rightarrow> unit settled \<times> world" where
  "fs_mkdir sv d w =
     (if mkdir_rejects sv d
      then (Rejected ''mkdir'', w\<lparr>calls := calls w @ [MkdirP d]\<rparr>)
      else (Resolved (),
            w\<lparr>dirs := dirs w \<union> set (ancestors d), calls := calls w @ [MkdirP d]\<rparr>))"

text \<open>\<^verbatim>\<open>fs.unlink\<close> removes a regular file and rejects when there is none.\<close>

definition fs_unlink :: "path \<Rightarrow> world \<Rightarrow> unit settled \<times> world" where
  "fs_unlink p w =
     (case files w p of
        None \<Rightarrow> (Rejected ''ENOENT'', w\<lparr>calls := calls w @ [Unlink p]\<rparr>)
      | Some b \<Rightarrow>
          (Resolved (), w\<lparr>files := (files w)(p := None), calls := calls w @ [Unlink p]\<rparr>))"

definition fs_stat :: "path \<Rightarrow> world \<Rightarrow> nat settled \<times> world" where
  "fs_stat p w =
     (case files w p of None \<Rightarrow> (Rejected ''ENOENT'', w) | Some b \<Rightarrow> (Resolved (length b), w))"

definition fs_readFile :: "path \<Rightarrow> world \<Rightarrow> buffer settled \<times> world" where
  "fs_readFile p w =
     (case files w p of None \<Rightarrow> (Rejected ''ENOENT'', w) | Some b \<Rightarrow> (Resolved b, w))"

definition fs_writeFile :: "services \<Rightarrow> path \<Rightarrow> buffer \<Rightarrow> world \<Rightarrow> unit settled \<times> world" where
  "fs_writeFile sv p b w =
     (case write_fault sv p of
        None \<Rightarrow> (Resolved (), w\<lparr>files := (files w)(p \<mapsto> b), calls := calls w @ [WriteTo p]\<rparr>)
      | Some (Untouched e) \<Rightarrow> (Rejected e, w\<lparr>calls := calls w @ [WriteTo p]\<rparr>)
      | Some (Truncated n e) \<Rightarrow>
          (Rejected e, w\<lparr>files := (files w)(p \<mapsto> take n b), calls := calls w @ [WriteTo p]\<rparr>))"

definition fs_copyFile :: "services \<Rightarrow> path \<Rightarrow> path \<Rightarrow> world \<Rightarrow> unit settled \<times> world" where
  "fs_copyFile sv src dst w =
     (case files w src of
        None \<Rightarrow> (Rejected ''ENOENT'', w\<lparr>calls := calls w @ [WriteTo dst]\<rparr>)
      | Some b \<Rightarrow> fs_writeFile sv dst b w)"

text \<open>\<^verbatim>\<open>sharp(...).toFormat(format, config).toFile(p)\<close>.\<close>

definition toFile :: "services \<Rightarrow> sharp_input \<Rightarrow> string \<Rightarrow> encoder_config \<Rightarrow> path \<Rightarrow> world \<Rightarrow> unit settled \<times> world" where
  "toFile sv inp format config p w =
     (case sharp_toFile sv inp format config p of
        Encoded b \<Rightarrow> (Resolved (), w\<lparr>files := (files w)(p \<mapsto> b), calls := calls w @ [WriteTo p]\<rparr>)
      | Aborted None e \<Rightarrow> (Rejected e, w\<lparr>calls := calls w @ [WriteTo p]\<rparr>)
      | Aborted (Some b) e \<Rightarrow>
          (Rejected e, w\<lparr>files := (files w)(p \<mapsto> b), calls := calls w @ [WriteTo p]\<rparr>))"

text \<open>\<^verbatim>\<open>execAsync(command)\<close>: resolves with the output when the exit status is 0.\<close>

definition write_all :: "(path \<times> buffer) list \<Rightarrow> (path \<Rightarrow> buffer option) \<Rightarrow> (path \<Rightarrow> buffer option)" where
  "write_all ws f = foldl (\<lambda>g pb. g(fst pb \<mapsto> snd pb)) f ws"

definition execAsync :: "services \<Rightarrow> string \<Rightarrow> world \<Rightarrow> string settled \<times> world" where
  "execAsync sv command w =
     (let pr = child sv command;
          w' = w\<lparr>files := write_all (written pr) (files w), calls := calls w @ [Exec command]\<rparr>
      in if exit_ok pr then (Resolved (stdout pr), w') else (Rejected ''Command failed'', w'))"


section \<open>\<^verbatim>\<open>optimise\<close> and \<^verbatim>\<open>handleFileChange\<close>\<close>

text \<open>Lines 91 to 96.\<close>

definition resizeOptions :: "metadata \<Rightarrow> resize" where
  "resizeOptions md =
     (case (width md, height md) of
        (Some wd, Some ht) \<Rightarrow>
          if wd \<noteq> 0 \<and> ht \<noteq> 0 then
            (if wd > 1440 \<or> ht > 1440
             then (if wd > ht then ToWidth 1440 else ToHeight 1440)
             else NoResize)
          else NoResize
      | _ \<Rightarrow> NoResize)"

text \<open>Line 99.\<close>

definition config :: "string \<Rightarrow> encoder_config" where
  "config format =
     \<lparr>quality = (if format = ''avif'' then 85 else 25),
      effort = (if format = ''avif'' then 9 else 10),
      chromaSubsampling = ''4:2:0'',
      progressive = True\<rparr>"

text \<open>
  Lines 102 and 103. The destructuring pattern
  \<^verbatim>\<open>{ data: colorData, info: colorInfo, data: alphaData }\<close> binds both names to the
  one \<^verbatim>\<open>data\<close> buffer of the raw output.
\<close>

definition combinedBuffer :: "buffer \<Rightarrow> buffer" where
  "combinedBuffer data = (let colorData = data; alphaData = data in concat [colorData, alphaData])"

text \<open>
  The image codec's contract for raw pixels. The raw output of an image with an alpha
  channel is its pixels from left to right and top to bottom, four bytes each in the
  order red, green, blue, alpha: \<open>interleaved\<close>. A raw input declared as
  \<open>w\<close> by \<open>h\<close> pixels of \<open>c\<close> channels is read as the first \<open>w * h\<close> runs of
  \<open>c\<close> bytes of the buffer, one run for each pixel, and is refused when the buffer
  is shorter: \<open>raw_raster\<close>.
\<close>

type_synonym rgba = "8 word \<times> 8 word \<times> 8 word \<times> 8 word"

definition channels_of :: "rgba \<Rightarrow> buffer" where
  "channels_of px = (case px of (r, g, b, a) \<Rightarrow> [r, g, b, a])"

definition interleaved :: "rgba list \<Rightarrow> buffer" where
  "interleaved pixels = concat (map channels_of pixels)"

primrec runs :: "nat \<Rightarrow> nat \<Rightarrow> buffer \<Rightarrow> buffer list" where
  "runs 0 c buf = []"
| "runs (Suc n) c buf = take c buf # runs n c (drop c buf)"

definition raw_raster :: "buffer \<Rightarrow> nat \<Rightarrow> nat \<Rightarrow> nat \<Rightarrow> buffer list option" where
  "raw_raster buf w h c = (if length buf < w * h * c then None else Some (runs (w * h) c buf))"

text \<open>
  Lines 81 to 121, the raster images. Everything from line 85 on is inside a
  \<^verbatim>\<open>try\<close> whose \<^verbatim>\<open>catch\<close> logs the message, so the branch never rejects. The
  two \<^verbatim>\<open>fs.stat\<close> calls feed the log line only.
\<close>

definition image_branch :: "services \<Rightarrow> path \<Rightarrow> path \<Rightarrow> path \<Rightarrow> world \<Rightarrow> unit settled \<times> world" where
  "image_branch sv cwd filePath out w =
     (let format = image_format cwd filePath;
          out' = out @ ''.'' @ format
      in swallow
           (case sharp_metadata sv filePath of
              Rejected e \<Rightarrow> (Rejected e, w)
            | Resolved md \<Rightarrow>
                await
                  (if (case hasAlpha md of None \<Rightarrow> False | Some a \<Rightarrow> a) then
                     (case sharp_raw sv filePath (resizeOptions md) of
                        Rejected e \<Rightarrow> (Rejected e, w)
                      | Resolved (data, iw, ih) \<Rightarrow>
                          toFile sv (FromRaw (combinedBuffer data) iw ih 4) format (config format) out' w)
                   else toFile sv (FromFile filePath (resizeOptions md)) format (config format) out' w)
                  (\<lambda>u w1. await (fs_stat filePath w1)
                     (\<lambda>beforeSize w2. await (fs_stat out' w2)
                        (\<lambda>afterSize w3. (Resolved (), w3))))))"

text \<open>Lines 124 to 137, the vector images.\<close>

definition svg_branch :: "services \<Rightarrow> path \<Rightarrow> path \<Rightarrow> world \<Rightarrow> unit settled \<times> world" where
  "svg_branch sv filePath out w =
     await (fs_readFile filePath w)
       (\<lambda>data w1.
          (case svgo_optimize sv data of
             Rejected e \<Rightarrow> (Rejected e, w1)
           | Resolved result \<Rightarrow>
               await (fs_writeFile sv (out @ ''.svg'') result w1)
                 (\<lambda>u w2. await (fs_stat filePath w2)
                    (\<lambda>beforeSize w3. await (fs_stat (out @ ''.svg'') w3)
                       (\<lambda>afterSize w4. (Resolved (), w4))))))"

text \<open>Lines 140 to 147, the audio files.\<close>

definition audio_branch :: "services \<Rightarrow> path \<Rightarrow> path \<Rightarrow> world \<Rightarrow> unit settled \<times> world" where
  "audio_branch sv filePath out w =
     await (execAsync sv (audioCommand filePath out) w)
       (\<lambda>output w1. await (fs_stat filePath w1)
          (\<lambda>beforeSize w2. await (fs_stat (out @ ''.aac'') w2)
             (\<lambda>afterSize w3. (Resolved (), w3))))"

text \<open>Lines 150 to 175, the video files.\<close>

definition video_branch :: "services \<Rightarrow> path \<Rightarrow> path \<Rightarrow> world \<Rightarrow> unit settled \<times> world" where
  "video_branch sv filePath out w =
     await (execAsync sv ''ffmpeg -encoders'' w)
       (\<lambda>encoders w1. await (execAsync sv (ffmpegCommand encoders filePath out) w1)
          (\<lambda>output w2. await (fs_stat filePath w2)
             (\<lambda>beforeSize w3. await (fs_stat (out @ ''.mp4'') w3)
                (\<lambda>afterSize w4. (Resolved (), w4)))))"

text \<open>
  Lines 178 to 201, the fonts. Both promise chains end in a \<^verbatim>\<open>.catch\<close> that logs.
  The copy of a \<^verbatim>\<open>.woff2\<close> file is started and not awaited; the model takes its
  effect at once.
\<close>

definition font_branch :: "services \<Rightarrow> path \<Rightarrow> string \<Rightarrow> path \<Rightarrow> world \<Rightarrow> unit settled \<times> world" where
  "font_branch sv filePath ext out w =
     (if ext = ''.ttf'' then
        swallow
          (await (fs_readFile filePath w)
             (\<lambda>data w1.
                (case ttf2woff2 sv data of
                   Rejected e \<Rightarrow> (Rejected e, w1)
                 | Resolved font \<Rightarrow>
                     swallow
                       (await (fs_writeFile sv (out @ ''.woff2'') font w1)
                          (\<lambda>u w2. await (fs_stat filePath w2)
                             (\<lambda>beforeSize w3. await (fs_stat (out @ ''.woff2'') w3)
                                (\<lambda>afterSize w4. (Resolved (), w4))))))))
      else if ext = ''.woff2'' then swallow (fs_copyFile sv filePath (out @ ''.woff2'') w)
      else (Resolved (), w))"

text \<open>Lines 81 to 201: the chain of category tests inside the outer \<^verbatim>\<open>try\<close>.\<close>

definition strategist :: "services \<Rightarrow> path \<Rightarrow> path \<Rightarrow> string \<Rightarrow> path \<Rightarrow> world \<Rightarrow> unit settled \<times> world" where
  "strategist sv cwd filePath ext out w =
     (if ext \<in> set imageExtensions then image_branch sv cwd filePath out w
      else if ext = ''.svg'' then svg_branch sv filePath out w
      else if ext \<in> set audioExtensions then audio_branch sv filePath out w
      else if ext \<in> set videoExtensions then video_branch sv filePath out w
      else if ext \<in> set fontExtensions then font_branch sv filePath ext out w
      else (Resolved (), w))"

text \<open>
  Lines 60 to 206. The two calls of lines 64 and 65 swallow their rejections; the
  \<^verbatim>\<open>fs.mkdir\<close> of line 66 is outside the \<^verbatim>\<open>try\<close>. Only the image branch assigns
  \<^verbatim>\<open>outputFilePath\<close> again, and that branch never rejects, so the \<^verbatim>\<open>catch\<close> of
  line 202 always unlinks the path of line 61.
\<close>

definition optimise :: "services \<Rightarrow> path \<Rightarrow> path \<Rightarrow> string \<Rightarrow> world \<Rightarrow> unit settled \<times> world" where
  "optimise sv cwd filePath ext w =
     (let out = outputFilePath filePath ext;
          w1 = snd (swallow (fs_mkdir sv (outputDir out) w));
          w2 = snd (swallow (fs_unlink out w1))
      in await (fs_mkdir sv (cacheDir cwd) w2)
           (\<lambda>u w3.
              (case strategist sv cwd filePath ext out w3 of
                 (Resolved v, w4) \<Rightarrow> (Resolved (), w4)
               | (Rejected e, w4) \<Rightarrow> swallow (fs_unlink out w4))))"

text \<open>Lines 47 to 54: a rejection of \<^verbatim>\<open>optimise\<close> is logged.\<close>

definition handleFileChange :: "services \<Rightarrow> path \<Rightarrow> path \<Rightarrow> world \<Rightarrow> world" where
  "handleFileChange sv cwd filePath w =
     (let ext = toLowerCase (path_extname filePath)
      in snd (optimise sv cwd filePath ext w))"


section \<open>Worlds that grow\<close>

text \<open>\<open>extends w w'\<close>: \<open>w'\<close> has the calls of \<open>w\<close> first and keeps its directories.\<close>

definition extends :: "world \<Rightarrow> world \<Rightarrow> bool" where
  "extends w w' = (prefix (calls w) (calls w') \<and> dirs w \<subseteq> dirs w')"

text \<open>\<open>untouched p w w'\<close>: the path \<open>p\<close> holds in \<open>w'\<close> what it held in \<open>w\<close>.\<close>

definition untouched :: "path \<Rightarrow> world \<Rightarrow> world \<Rightarrow> bool" where
  "untouched p w w' = (files w' p = files w p)"


section \<open>Paths given by their segments\<close>

text \<open>
  A segment is a name that \<^verbatim>\<open>path.normalize\<close> keeps as it is. \<open>below segs\<close> is the
  text that leads from a directory down through \<open>segs\<close>, and \<open>absolute segs\<close> the
  absolute normalised path with these segments.
\<close>

definition segment :: "string \<Rightarrow> bool" where
  "segment s = (s \<noteq> [] \<and> s \<noteq> ''.'' \<and> s \<noteq> ''..'' \<and> path_sep \<notin> set s)"

definition below :: "string list \<Rightarrow> path" where
  "below segs = concat (map ((#) path_sep) segs)"

definition absolute :: "string list \<Rightarrow> path" where
  "absolute segs = (if segs = [] then ''/'' else below segs)"


section \<open>Concrete runs\<close>

text \<open>
  A project in \<^verbatim>\<open>/proj\<close>. An earlier run left \<^verbatim>\<open>/proj/public/song.aac\<close>, and
  there is a file at the extension-less path \<^verbatim>\<open>/proj/public/notes\<close>.
\<close>

definition project :: world where
  "project =
     \<lparr>files = [''/proj/public_dev/song.mp3'' \<mapsto> [1, 2, 3],
               ''/proj/public_dev/a/photo.png'' \<mapsto> [4, 5, 6],
               ''/proj/public_dev/notes.txt'' \<mapsto> [7, 8],
               ''/proj/public/song.aac'' \<mapsto> [9, 9],
               ''/proj/public/notes'' \<mapsto> [6]],
      dirs = {''/proj'', ''/proj/public_dev'', ''/proj/public_dev/a''},
      calls = []\<rparr>"

text \<open>
  Services that all succeed. The image is one RGBA pixel, and the encoder's output for a
  raw input is the raster it reads from the buffer, so that the pixels it saw can be read
  off the output file.
\<close>

definition calm :: services where
  "calm =
     \<lparr>mkdir_rejects = (\<lambda>d. False),
      sharp_metadata = (\<lambda>p. Resolved \<lparr>width = Some 1, height = Some 1, hasAlpha = Some True\<rparr>),
      sharp_raw = (\<lambda>p r. Resolved ([10, 20, 30, 40], 1, 1)),
      sharp_toFile =
        (\<lambda>inp format cfg p.
           case inp of
             FromRaw b iw ih c \<Rightarrow>
               (case raw_raster b iw ih c of
                  None \<Rightarrow> Aborted None ''memory area too small''
                | Some pixels \<Rightarrow> Encoded (concat pixels))
           | FromFile q r \<Rightarrow> Encoded [0]),
      svgo_optimize = (\<lambda>b. Resolved b),
      ttf2woff2 = (\<lambda>b. Resolved b),
      write_fault = (\<lambda>p. None),
      child = (\<lambda>command. \<lparr>exit_ok = True, stdout = [], written = []\<rparr>)\<rparr>"

text \<open>The external encoder writes two bytes of its output and exits with an error.\<close>

definition encoder_dies_midway :: services where
  "encoder_dies_midway =
     calm\<lparr>child := (\<lambda>command. \<lparr>exit_ok = False, stdout = [],
                       written = [(''/proj/public/song.aac'', [0, 1])]\<rparr>)\<rparr>"

text \<open>The image codec leaves one byte at its output path and rejects.\<close>

definition codec_dies_midway :: services where
  "codec_dies_midway =
     calm\<lparr>sharp_toFile := (\<lambda>inp format cfg p. Aborted (Some [7]) ''write failed'')\<rparr>"

text \<open>The external encoder exits with an error before it writes anything.\<close>

definition encoder_refuses :: services where
  "encoder_refuses =
     calm\<lparr>child := (\<lambda>command. \<lparr>exit_ok = False, stdout = [], written = []\<rparr>)\<rparr>"

text \<open>The same image without an alpha channel.\<close>

definition opaque_image :: services where
  "opaque_image =
     calm\<lparr>sharp_metadata :=
            (\<lambda>p. Resolved \<lparr>width = Some 1, height = Some 1, hasAlpha = Some False\<rparr>)\<rparr>"

text \<open>
  A host whose \<^verbatim>\<open>ffmpeg -encoders\<close> prints the given listing; every other command
  writes the video and exits with status 0.
\<close>

definition host_listing :: "string \<Rightarrow> services" where
  "host_listing listing =
     calm\<lparr>child :=
            (\<lambda>command.
               if command = ''ffmpeg -encoders''
               then \<lparr>exit_ok = True, stdout = listing, written = []\<rparr>
               else \<lparr>exit_ok = True, stdout = [],
                     written = [(''/proj/public/clip.mp4'', [5])]\<rparr>)\<rparr>"

text \<open>The external encoder writes its output and exits with status 0.\<close>

definition encoder_works :: services where
  "encoder_works =
     calm\<lparr>child := (\<lambda>command. \<lparr>exit_ok = True, stdout = [],
                       written = [(''/proj/public/song.aac'', [5])]\<rparr>)\<rparr>"


section \<open>Facts about the string and path functions\<close>

lemma str_includes_iff: "str_includes s sub \<longleftrightarrow> (\<exists>p q. s = p @ sub @ q)"
proof (induction s)
  case Nil
  then show ?case by auto
next
  case (Cons c cs)
  show ?case
  proof
    assume "str_includes (c # cs) sub"
    then consider "prefix sub (c # cs)" | "str_includes cs sub" by auto
    then show "\<exists>p q. c # cs = p @ sub @ q"
    proof cases
      case 1
      then obtain q where "c # cs = sub @ q" by (auto simp: prefix_def)
      then have "c # cs = [] @ sub @ q" by simp
      then show ?thesis by blast
    next
      case 2
      with Cons.IH obtain p q where "cs = p @ sub @ q" by blast
      then have "c # cs = (c # p) @ sub @ q" by simp
      then show ?thesis by blast
    qed
  next
    assume "\<exists>p q. c # cs = p @ sub @ q"
    then obtain p q where pq: "c # cs = p @ sub @ q" by blast
    show "str_includes (c # cs) sub"
    proof (cases p)
      case Nil
      with pq have "prefix sub (c # cs)" by (simp add: prefix_def)
      then show ?thesis by simp
    next
      case (Cons a p')
      with pq have "cs = p' @ sub @ q" by simp
      with Cons.IH have "str_includes cs sub" by blast
      then show ?thesis by simp
    qed
  qed
qed

lemma str_split_not_Nil: "str_split s c \<noteq> []"
  by (induction s) (auto split: list.splits)

lemma length_str_split: "length (str_split s c) = Suc (length (filter (\<lambda>x. x = c) s))"
proof (induction s)
  case Nil
  then show ?case by simp
next
  case (Cons x xs)
  then show ?case
    using str_split_not_Nil [of xs c] by (auto split: list.splits)
qed

lemma substring_from_drop: "substring_from (p @ s) (int (length p)) = s"
  by (simp add: substring_from_def substring_def Let_def min_def max_def)

lemma seps_below:
  "\<forall>s\<in>set segs. path_sep \<notin> set s \<Longrightarrow>
   length (filter (\<lambda>x. x = path_sep) (concat (map ((#) path_sep) segs))) = length segs"
proof (induction segs)
  case Nil
  then show ?case by simp
next
  case (Cons s segs)
  have "filter (\<lambda>x. x = path_sep) s = []"
    using Cons.prems by (auto simp: filter_empty_conv)
  with Cons show ?case by simp
qed

lemma normal_exponent_numeral:
  "normal_exponent (numeral k) x e =
     (if 2 ^ 53 \<le> x then normal_exponent (pred_numeral k) (x / 2) (e + 1)
      else if x < 2 ^ 52 then normal_exponent (pred_numeral k) (x * 2) (e - 1)
      else e)"
  by (simp add: numeral_eq_Suc)

lemma floor_rat_numeral: "\<lfloor>numeral a / numeral b :: rat\<rfloor> = numeral a div numeral b"
  by (metis floor_divide_of_int_eq of_int_numeral)

lemma ext_song: "toLowerCase (path_extname ''/proj/public_dev/song.mp3'') = ''.mp3''"
  by (simp add: toLowerCase_def path_extname_def last_part_def path_sep_def lower_char_def capitals_def smalls_def)

lemma out_song: "outputFilePath ''/proj/public_dev/song.mp3'' ''.mp3'' = ''/proj/public/song''"
  by (simp add: outputFilePath_def lastIndexOf_def substring_def path_sep_def path_basename_def
        last_part_def path_join_def path_normalize_def)

lemma dir_song: "outputDir ''/proj/public/song'' = ''/proj/public''"
  by (simp add: outputDir_def lastIndexOf_def substring_def path_sep_def)

lemma ext_photo: "toLowerCase (path_extname ''/proj/public_dev/a/photo.png'') = ''.png''"
  by (simp add: toLowerCase_def path_extname_def last_part_def path_sep_def lower_char_def capitals_def smalls_def)

lemma out_photo:
  "outputFilePath ''/proj/public_dev/a/photo.png'' ''.png'' = ''/proj/public/a/photo''"
  by (simp add: outputFilePath_def lastIndexOf_def substring_def path_sep_def path_basename_def
        last_part_def path_join_def path_normalize_def)

lemma dir_photo: "outputDir ''/proj/public/a/photo'' = ''/proj/public/a''"
  by (simp add: outputDir_def lastIndexOf_def substring_def path_sep_def)

lemma format_photo: "image_format ''/proj'' ''/proj/public_dev/a/photo.png'' = ''avif''"
  by (simp add: image_format_def substring_from_def substring_def path_sep_def)

lemma out_notes:
  "outputFilePath ''/proj/public_dev/notes.txt'' ''.txt'' = ''/proj/public/notes''"
  by (simp add: outputFilePath_def lastIndexOf_def substring_def path_sep_def path_basename_def
        last_part_def path_join_def path_normalize_def)

lemma out_notes_mp3:
  "outputFilePath ''/proj/public_dev/notes.mp3'' ''.mp3'' = ''/proj/public/notes''"
  by (simp add: outputFilePath_def lastIndexOf_def substring_def path_sep_def path_basename_def
        last_part_def path_join_def path_normalize_def)

lemma dir_notes: "outputDir ''/proj/public/notes'' = ''/proj/public''"
  by (simp add: outputDir_def lastIndexOf_def substring_def path_sep_def)

lemma cache_proj: "cacheDir ''/proj'' = ''/proj/opt_cache''"
  by (simp add: cacheDir_def path_resolve_def path_sep_def)


section \<open>Every step of a job extends the world\<close>

lemma extends_refl: "extends w w"
  by (simp add: extends_def)

lemma extends_trans: "extends w w1 \<Longrightarrow> extends w1 w2 \<Longrightarrow> extends w w2"
  by (auto simp: extends_def)

lemma extends_calls: "extends w w' \<Longrightarrow> \<exists>rest. calls w' = calls w @ rest"
  by (auto simp: extends_def prefix_def)

lemma extends_dirs: "extends w w' \<Longrightarrow> dirs w \<subseteq> dirs w'"
  by (simp add: extends_def)

lemma extends_await:
  assumes "extends w (snd m)" and "\<And>x w1. extends w1 (snd (k x w1))"
  shows "extends w (snd (await m k))"
proof (cases m)
  case (Pair r w1)
  show ?thesis
  proof (cases r)
    case (Resolved x)
    with Pair assms(1) assms(2) [of w1 x] show ?thesis
      by (auto simp: await_def intro: extends_trans)
  next
    case (Rejected e)
    with Pair assms(1) show ?thesis by (simp add: await_def)
  qed
qed

lemma extends_swallow: "extends w (snd m) \<Longrightarrow> extends w (snd (swallow m))"
  by (simp add: swallow_def)

lemma extends_mkdir: "extends w (snd (fs_mkdir sv d w))"
  by (simp add: fs_mkdir_def extends_def)

lemma extends_unlink: "extends w (snd (fs_unlink p w))"
  by (simp add: fs_unlink_def extends_def split: option.splits)

lemma extends_stat: "extends w (snd (fs_stat p w))"
  by (simp add: fs_stat_def extends_def split: option.splits)

lemma extends_readFile: "extends w (snd (fs_readFile p w))"
  by (simp add: fs_readFile_def extends_def split: option.splits)

lemma extends_writeFile: "extends w (snd (fs_writeFile sv p b w))"
  by (simp add: fs_writeFile_def extends_def split: option.splits fault.splits)

lemma extends_copyFile: "extends w (snd (fs_copyFile sv src dst w))"
  using extends_writeFile by (simp add: fs_copyFile_def extends_def split: option.splits)

lemma extends_toFile: "extends w (snd (toFile sv inp format cfg p w))"
  by (simp add: toFile_def extends_def split: encoding.splits option.splits)

lemma extends_execAsync: "extends w (snd (execAsync sv command w))"
  by (simp add: execAsync_def extends_def Let_def)

lemma extends_stats:
  "extends w (snd (await (fs_stat p w)
     (\<lambda>beforeSize w2. await (fs_stat q w2) (\<lambda>afterSize w3. (Resolved (), w3)))))"
  by (intro extends_await extends_stat) (simp add: extends_refl)

lemma extends_image: "extends w (snd (image_branch sv cwd filePath out w))"
  unfolding image_branch_def Let_def
  by (auto intro!: extends_swallow extends_await extends_toFile extends_stats extends_refl
        split: settled.splits prod.splits)

lemma extends_svg: "extends w (snd (svg_branch sv filePath out w))"
  unfolding svg_branch_def
  by (auto intro!: extends_await extends_readFile extends_writeFile extends_stats extends_refl
        split: settled.splits)

lemma extends_audio: "extends w (snd (audio_branch sv filePath out w))"
  unfolding audio_branch_def
  by (intro extends_await extends_execAsync extends_stats)

lemma extends_video: "extends w (snd (video_branch sv filePath out w))"
  unfolding video_branch_def
  by (intro extends_await extends_execAsync extends_stats)

lemma extends_font: "extends w (snd (font_branch sv filePath ext out w))"
  unfolding font_branch_def
  by (auto intro!: extends_swallow extends_await extends_readFile extends_writeFile
        extends_copyFile extends_stats extends_refl split: settled.splits)

lemma extends_strategist: "extends w (snd (strategist sv cwd filePath ext out w))"
  unfolding strategist_def
  by (simp add: extends_image extends_svg extends_audio extends_video extends_font extends_refl)

lemma optimise_rejected:
  "mkdir_rejects sv (cacheDir cwd) \<Longrightarrow>
   snd (optimise sv cwd filePath ext w) =
     (snd (fs_unlink (outputFilePath filePath ext)
        (snd (fs_mkdir sv (outputDir (outputFilePath filePath ext)) w))))
     \<lparr>calls := calls (snd (fs_unlink (outputFilePath filePath ext)
        (snd (fs_mkdir sv (outputDir (outputFilePath filePath ext)) w)))) @ [MkdirP (cacheDir cwd)]\<rparr>"
  unfolding optimise_def Let_def swallow_def await_def
  by (simp add: fs_mkdir_def [of sv "cacheDir cwd"])

lemma optimise_resolved:
  "\<not> mkdir_rejects sv (cacheDir cwd) \<Longrightarrow>
   optimise sv cwd filePath ext w =
     (case strategist sv cwd filePath ext (outputFilePath filePath ext)
             (snd (fs_mkdir sv (cacheDir cwd)
                (snd (fs_unlink (outputFilePath filePath ext)
                   (snd (fs_mkdir sv (outputDir (outputFilePath filePath ext)) w)))))) of
        (Resolved v, w4) \<Rightarrow> (Resolved (), w4)
      | (Rejected e, w4) \<Rightarrow> (Resolved (), snd (fs_unlink (outputFilePath filePath ext) w4)))"
  unfolding optimise_def Let_def swallow_def await_def
  by (simp add: fs_mkdir_def [of sv "cacheDir cwd"])

lemma prologue_calls:
  "calls (snd (fs_unlink out (snd (fs_mkdir sv d w)))) = calls w @ [MkdirP d, Unlink out]"
  by (simp add: fs_unlink_def fs_mkdir_def split: option.splits)

lemma prologue_files:
  "files (snd (fs_unlink out (snd (fs_mkdir sv d w)))) = (files w)(out := None)"
  by (auto simp: fs_unlink_def fs_mkdir_def split: option.splits)

lemma prologue_dirs:
  "\<not> mkdir_rejects sv d \<Longrightarrow>
   set (ancestors d) \<subseteq> dirs (snd (fs_unlink out (snd (fs_mkdir sv d w))))"
  by (auto simp: fs_unlink_def fs_mkdir_def split: option.splits)

lemma extends_optimise_tail:
  fixes sv cwd filePath ext w
  defines "out \<equiv> outputFilePath filePath ext"
  defines "w2 \<equiv> snd (fs_unlink out (snd (fs_mkdir sv (outputDir out) w)))"
  shows "extends (w2\<lparr>calls := calls w2 @ [MkdirP (cacheDir cwd)]\<rparr>)
           (snd (optimise sv cwd filePath ext w))"
proof (cases "mkdir_rejects sv (cacheDir cwd)")
  case True
  then show ?thesis
    using optimise_rejected [of sv cwd filePath ext w]
    by (simp add: out_def w2_def extends_refl)
next
  case False
  define w3 where "w3 = snd (fs_mkdir sv (cacheDir cwd) w2)"
  have a: "extends (w2\<lparr>calls := calls w2 @ [MkdirP (cacheDir cwd)]\<rparr>) w3"
    using False by (simp add: w3_def fs_mkdir_def extends_def)
  have b: "extends w3 (snd (strategist sv cwd filePath ext out w3))"
    by (rule extends_strategist)
  have c: "extends (snd (strategist sv cwd filePath ext out w3))
             (snd (optimise sv cwd filePath ext w))"
    using optimise_resolved [OF False, of filePath ext w] extends_unlink
    by (auto simp: out_def w2_def w3_def extends_refl split: prod.splits settled.splits)
  from a b c show ?thesis by (blast intro: extends_trans)
qed


section \<open>What a job leaves untouched\<close>

lemma untouched_refl: "untouched p w w"
  by (simp add: untouched_def)

lemma untouched_trans: "untouched p w w1 \<Longrightarrow> untouched p w1 w2 \<Longrightarrow> untouched p w w2"
  by (simp add: untouched_def)

lemma untouched_await:
  assumes "untouched p w (snd m)" and "\<And>x w1. untouched p w1 (snd (k x w1))"
  shows "untouched p w (snd (await m k))"
proof (cases m)
  case (Pair r w1)
  show ?thesis
  proof (cases r)
    case (Resolved x)
    with Pair assms(1) assms(2) [of w1 x] show ?thesis
      by (auto simp: await_def intro: untouched_trans)
  next
    case (Rejected e)
    with Pair assms(1) show ?thesis by (simp add: await_def)
  qed
qed

lemma untouched_swallow: "untouched p w (snd m) \<Longrightarrow> untouched p w (snd (swallow m))"
  by (simp add: swallow_def)

lemma untouched_mkdir: "untouched p w (snd (fs_mkdir sv d w))"
  by (simp add: fs_mkdir_def untouched_def)

lemma untouched_stat: "untouched p w (snd (fs_stat q w))"
  by (simp add: fs_stat_def untouched_def split: option.splits)

lemma untouched_readFile: "untouched p w (snd (fs_readFile q w))"
  by (simp add: fs_readFile_def untouched_def split: option.splits)

lemma untouched_writeFile: "q \<noteq> p \<Longrightarrow> untouched p w (snd (fs_writeFile sv q b w))"
  by (simp add: fs_writeFile_def untouched_def split: option.splits fault.splits)

lemma untouched_copyFile: "q \<noteq> p \<Longrightarrow> untouched p w (snd (fs_copyFile sv src q w))"
  using untouched_writeFile [of q p]
  by (simp add: fs_copyFile_def untouched_def split: option.splits)

lemma untouched_toFile: "q \<noteq> p \<Longrightarrow> untouched p w (snd (toFile sv inp format cfg q w))"
  by (simp add: toFile_def untouched_def split: encoding.splits option.splits)

lemma write_all_other: "p \<notin> fst ` set ws \<Longrightarrow> write_all ws f p = f p"
  unfolding write_all_def
  by (induction ws arbitrary: f) auto

lemma untouched_execAsync:
  "p \<notin> fst ` set (written (child sv command)) \<Longrightarrow> untouched p w (snd (execAsync sv command w))"
  by (simp add: execAsync_def untouched_def Let_def write_all_other)

lemma untouched_stats:
  "untouched p w (snd (await (fs_stat a w)
     (\<lambda>beforeSize w2. await (fs_stat b w2) (\<lambda>afterSize w3. (Resolved (), w3)))))"
  by (intro untouched_await untouched_stat) (simp add: untouched_refl)

lemma untouched_image: "untouched out w (snd (image_branch sv cwd filePath out w))"
  unfolding image_branch_def Let_def
  by (auto intro!: untouched_swallow untouched_await untouched_toFile untouched_stats
        untouched_refl split: settled.splits prod.splits)

lemma untouched_svg: "untouched out w (snd (svg_branch sv filePath out w))"
  unfolding svg_branch_def
  by (auto intro!: untouched_await untouched_readFile untouched_writeFile untouched_stats
        untouched_refl split: settled.splits)

lemma untouched_audio:
  "\<forall>c. out \<notin> fst ` set (written (child sv c)) \<Longrightarrow>
   untouched out w (snd (audio_branch sv filePath out w))"
  unfolding audio_branch_def
  by (intro untouched_await untouched_execAsync untouched_stats) simp

lemma untouched_video:
  "\<forall>c. out \<notin> fst ` set (written (child sv c)) \<Longrightarrow>
   untouched out w (snd (video_branch sv filePath out w))"
  unfolding video_branch_def
  by (intro untouched_await untouched_execAsync untouched_stats) simp_all

lemma untouched_font: "untouched out w (snd (font_branch sv filePath ext out w))"
  unfolding font_branch_def
  by (auto intro!: untouched_swallow untouched_await untouched_readFile untouched_writeFile
        untouched_copyFile untouched_stats untouched_refl split: settled.splits)

lemma untouched_strategist:
  "\<forall>c. out \<notin> fst ` set (written (child sv c)) \<Longrightarrow>
   untouched out w (snd (strategist sv cwd filePath ext out w))"
  unfolding strategist_def
  by (simp add: untouched_image untouched_svg untouched_audio untouched_video untouched_font
        untouched_refl)

lemma unlink_gone: "files (snd (fs_unlink p w)) p = None"
  by (simp add: fs_unlink_def split: option.splits)

lemma optimise_output_path_gone:
  assumes "\<forall>c. outputFilePath filePath ext \<notin> fst ` set (written (child sv c))"
  shows "files (snd (optimise sv cwd filePath ext w)) (outputFilePath filePath ext) = None"
proof (cases "mkdir_rejects sv (cacheDir cwd)")
  case True
  then show ?thesis
    using optimise_rejected [of sv cwd filePath ext w] by (simp add: unlink_gone)
next
  case False
  define out where "out = outputFilePath filePath ext"
  define w3 where
    "w3 = snd (fs_mkdir sv (cacheDir cwd)
       (snd (fs_unlink out (snd (fs_mkdir sv (outputDir out) w)))))"
  have "files w3 out = None"
    by (simp add: w3_def fs_mkdir_def unlink_gone)
  moreover have "untouched out w3 (snd (strategist sv cwd filePath ext out w3))"
    using assms unfolding out_def by (rule untouched_strategist)
  ultimately have "files (snd (strategist sv cwd filePath ext out w3)) out = None"
    by (simp add: untouched_def)
  then show ?thesis
    using optimise_resolved [OF False, of filePath ext w]
    by (auto simp: out_def w3_def unlink_gone split: prod.splits settled.splits)
qed


section \<open>The mapped output path of an input with a lower-case extension\<close>

text \<open>
  Line 61 on an input \<open>stem @ ext\<close> in the directory \<open>segs\<close> below the watch root,
  when the text before the watch root does not contain \<^verbatim>\<open>/public_dev\<close> itself:
  the watch root is replaced by the output root, the directories are kept in order, and
  \<open>ext\<close> is stripped. With the extension that \<^verbatim>\<open>handleFileChange\<close> passes
  in, this covers the inputs whose extension is written in lower case.
\<close>

lemma str_split_plain: "c \<notin> set s \<Longrightarrow> str_split s c = [s]"
  by (induction s) auto

lemma str_split_segments:
  "c \<notin> set s \<Longrightarrow> list_all (\<lambda>t. c \<notin> set t) ss \<Longrightarrow>
   str_split (s @ concat (map ((#) c) ss)) c = s # ss"
proof (induction ss arbitrary: s)
  case Nil
  then show ?case by (simp add: str_split_plain)
next
  case (Cons t ts)
  from Cons.prems(2) have "str_split (t @ concat (map ((#) c) ts)) c = t # ts"
    by (intro Cons.IH) auto
  then have "str_split (s @ c # t @ concat (map ((#) c) ts)) c = s # t # ts"
    using Cons.prems(1) by (induction s) auto
  then show ?case by simp
qed

lemma normalizeString_segments:
  "list_all (\<lambda>s. s = [] \<or> segment s) ss \<Longrightarrow>
   normalizeString allow acc ss = rev acc @ filter (\<lambda>s. s \<noteq> []) ss"
proof (induction ss arbitrary: acc)
  case Nil
  then show ?case by simp
next
  case (Cons s ss)
  then show ?case by (auto simp: segment_def)
qed

lemma join_with_segments: "ss \<noteq> [] \<Longrightarrow> c # join_with c ss = concat (map ((#) c) ss)"
  by (induction c ss rule: join_with.induct) auto


lemma str_replace_first:
  assumes "\<not> str_includes pre (c # pat)" and "c \<notin> set pat"
  shows "str_replace (pre @ (c # pat) @ rest) (c # pat) rep = pre @ rep @ rest"
  using assms(1)
proof (induction pre)
  case Nil
  then show ?case by simp
next
  case (Cons x xs)
  have no: "\<not> prefix (c # pat) (x # xs @ (c # pat) @ rest)"
  proof
    assume p: "prefix (c # pat) (x # xs @ (c # pat) @ rest)"
    have "prefix (c # pat) (x # xs) \<or>
        (\<exists>us. c # pat = (x # xs) @ us \<and> prefix us ((c # pat) @ rest))"
      using p prefix_append [of "c # pat" "x # xs" "(c # pat) @ rest"]
      by (simp only: append_Cons)
    then consider "prefix (c # pat) (x # xs)"
      | us where "c # pat = (x # xs) @ us" "prefix us ((c # pat) @ rest)" "us \<noteq> []"
      by (cases "prefix (c # pat) (x # xs)") auto
    then show False
    proof cases
      case 1
      with Cons.prems show False by simp
    next
      case 2
      from 2(2,3) obtain us' where "us = c # us'"
        by (cases us) auto
      with 2(1) have "c \<in> set pat" by (cases xs) auto
      with assms(2) show False by simp
    qed
  qed
  from Cons.prems have "\<not> str_includes xs (c # pat)" by simp
  with Cons.IH have "str_replace (xs @ (c # pat) @ rest) (c # pat) rep = xs @ rep @ rest" by simp
  with no show ?case by auto
qed

lemma last_part_name:
  "path_sep \<notin> set name \<Longrightarrow> name \<noteq> [] \<Longrightarrow> last_part (d @ path_sep # name) = name"
proof -
  assume a: "path_sep \<notin> set name" "name \<noteq> []"
  then have "dropWhile (\<lambda>c. c = path_sep) (rev name @ path_sep # rev d) = rev name @ path_sep # rev d"
    by (cases name rule: rev_cases) auto
  moreover have "takeWhile (\<lambda>c. c \<noteq> path_sep) (rev name @ path_sep # rev d) = rev name"
    using a by (subst takeWhile_append2) auto
  ultimately show ?thesis by (simp add: last_part_def)
qed

lemma lastIndexOf_name:
  "path_sep \<notin> set name \<Longrightarrow> lastIndexOf (d @ path_sep # name) path_sep = int (length d)"
proof -
  assume a: "path_sep \<notin> set name"
  have "takeWhile (\<lambda>x. x \<noteq> path_sep) (rev name @ path_sep # rev d) = rev name"
    using a by (subst takeWhile_append2) auto
  then show ?thesis by (simp add: lastIndexOf_def)
qed

lemma substring_prefix: "substring (d @ s) 0 (int (length d)) = d"
  by (simp add: substring_def Let_def min_def max_def)

lemma path_basename_strip:
  assumes "path_sep \<notin> set (stem @ ext)" and "stem \<noteq> []"
  shows "path_basename (d @ path_sep # stem @ ext) ext = stem"
proof -
  have lp: "last_part (d @ path_sep # stem @ ext) = stem @ ext"
    using assms by (intro last_part_name) auto
  show ?thesis
  proof (cases "ext = []")
    case True
    with lp show ?thesis by (simp add: path_basename_def)
  next
    case False
    have "ext \<noteq> d @ path_sep # stem @ ext"
    proof
      assume "ext = d @ path_sep # stem @ ext"
      then have "length ext = length (d @ path_sep # stem @ ext)" by simp
      then show False by simp
    qed
    moreover have "stem @ ext \<noteq> ext" using assms(2) by simp
    ultimately show ?thesis
      using False lp assms(2) by (simp add: path_basename_def Let_def)
  qed
qed


lemma below_append: "below (xs @ ys) = below xs @ below ys"
  by (simp add: below_def)

lemma below_single: "below [s] = path_sep # s"
  by (simp add: below_def)

lemma below_Nil: "below [] = []"
  by (simp add: below_def)

lemma below_Cons: "below (s # ss) = path_sep # s @ below ss"
  by (simp add: below_def)

lemma path_join_segments:
  assumes "list_all segment ss" and "segment stem"
  shows "path_join (below ss @ [path_sep]) stem = below (ss @ [stem])"
proof -
  define p where "p = below (ss @ [[], stem])"
  have stem: "stem \<noteq> []" "path_sep \<notin> set stem"
    using assms(2) by (simp_all add: segment_def)
  have p_eq: "p = below ss @ path_sep # path_sep # stem"
    by (simp add: p_def below_def)
  have nosep: "list_all (\<lambda>t. path_sep \<notin> set t) (ss @ [[], stem])"
    using assms by (auto simp: list_all_iff segment_def)
  have split: "str_split p path_sep = [] # ss @ [[], stem]"
    using str_split_segments [of path_sep "[]" "ss @ [[], stem]"] nosep
    by (simp add: p_def below_def)
  have "list_all (\<lambda>s. s = [] \<or> segment s) ([] # ss @ [[], stem])"
    using assms by (auto simp: list_all_iff)
  then have "normalizeString False [] ([] # ss @ [[], stem])
      = filter (\<lambda>s. s \<noteq> []) ([] # ss @ [[], stem])"
    using normalizeString_segments [of "[] # ss @ [[], stem]" False "[]"] by simp
  also have "\<dots> = ss @ [stem]"
    using assms stem by (auto simp: list_all_iff segment_def filter_id_conv)
  finally have norm: "normalizeString False [] (str_split p path_sep) = ss @ [stem]"
    by (simp add: split)
  have q: "path_sep # join_with path_sep (ss @ [stem]) = below (ss @ [stem])"
    unfolding below_def by (rule join_with_segments) simp
  have q_ne: "join_with path_sep (ss @ [stem]) \<noteq> []"
  proof
    assume "join_with path_sep (ss @ [stem]) = []"
    with q have "below (ss @ [stem]) = [path_sep]" by simp
    then have "length (below ss @ path_sep # stem) = 1"
      by (simp add: below_append below_single)
    with stem show False by simp
  qed
  have hd: "hd p = path_sep"
    unfolding p_eq by (cases ss) (simp_all add: below_def)
  have "last stem \<in> set stem"
    using stem(1) by (rule last_in_set)
  then have "last stem \<noteq> path_sep"
    using stem(2) by metis
  then have last: "last p \<noteq> path_sep"
    unfolding p_eq using stem by (simp add: last_append)
  have ne: "p \<noteq> []"
    unfolding p_eq by simp
  have "path_normalize p = below (ss @ [stem])"
    using hd last ne q q_ne by (simp add: path_normalize_def Let_def norm)
  moreover have "path_join (below ss @ [path_sep]) stem = path_normalize p"
    using stem by (simp add: path_join_def p_eq)
  ultimately show ?thesis by simp
qed

lemma path_extname_lower:
  assumes "segment stem" and "CHR ''.'' \<notin> set e" and "path_sep \<notin> set e"
  shows "path_extname (d @ path_sep # stem @ CHR ''.'' # e) = CHR ''.'' # e"
proof -
  have stem: "stem \<noteq> []" "path_sep \<notin> set stem" "stem \<noteq> ''.''"
    using assms(1) by (simp_all add: segment_def)
  have dot: "CHR ''.'' \<noteq> path_sep" by (simp add: path_sep_def)
  have lp: "last_part (d @ path_sep # stem @ CHR ''.'' # e) = stem @ CHR ''.'' # e"
    using stem assms(3) dot by (intro last_part_name) auto
  have k: "takeWhile (\<lambda>c. c \<noteq> CHR ''.'') (rev (stem @ CHR ''.'' # e)) = rev e"
    using assms(2) by (simp, subst takeWhile_append2) auto
  have "stem @ CHR ''.'' # e \<noteq> ''..''"
    using stem by (cases stem; cases "tl stem") auto
  then show ?thesis
    using stem by (simp add: path_extname_def lp Let_def k del: rev_append rev.simps)
qed

lemma outputFilePath_mirrors:
  assumes "list_all segment csegs" and "list_all segment segs" and "segment stem"
    and "path_sep \<notin> set ext"
    and "\<not> str_includes (below csegs) ''/public_dev''"
  shows "outputFilePath (watchDir (absolute csegs) @ below segs @ path_sep # stem @ ext) ext =
           path_resolve (absolute csegs) ''public'' @ below segs @ path_sep # stem"
proof -
  have stem: "stem \<noteq> []" "path_sep \<notin> set stem"
    using assms(3) by (simp_all add: segment_def)
  have root: "watchDir (absolute csegs) = below csegs @ ''/public_dev''"
    using assms(1)
    by (cases csegs)
       (simp_all add: watchDir_def path_resolve_def absolute_def below_def path_sep_def segment_def)
  have out_root: "path_resolve (absolute csegs) ''public'' = below (csegs @ [''public''])"
    using assms(1)
    by (cases csegs)
       (simp_all add: path_resolve_def absolute_def below_def path_sep_def segment_def)
  define d where "d = below csegs @ ''/public_dev'' @ below segs"
  have fp: "watchDir (absolute csegs) @ below segs @ path_sep # stem @ ext
      = d @ path_sep # (stem @ ext)"
    by (simp add: root d_def)
  have idx: "lastIndexOf (d @ path_sep # (stem @ ext)) path_sep = int (length d)"
    using stem assms(4) by (intro lastIndexOf_name) simp
  have cut: "substring (d @ path_sep # (stem @ ext)) 0 (int (length d)) = d"
    by (rule substring_prefix)
  have "str_replace (below csegs @ (CHR ''/'' # ''public_dev'') @ below segs)
      (CHR ''/'' # ''public_dev'') ''/public'' = below csegs @ ''/public'' @ below segs"
    using assms(5) by (intro str_replace_first) simp_all
  then have rep: "str_replace d ''/public_dev'' ''/public'' = below (csegs @ [''public''] @ segs)"
    by (simp add: d_def below_append below_Cons path_sep_def)
  have base: "path_basename (d @ path_sep # stem @ ext) ext = stem"
    using stem assms(4) by (intro path_basename_strip) simp_all
  have "list_all segment (csegs @ [''public''] @ segs)"
    using assms(1,2) by (simp add: segment_def path_sep_def)
  then have "path_join (below (csegs @ [''public''] @ segs) @ [path_sep]) stem
      = below ((csegs @ [''public''] @ segs) @ [stem])"
    using assms(3) by (rule path_join_segments)
  then show ?thesis
    unfolding fp outputFilePath_def
    by (simp add: idx cut rep base out_root below_append below_Cons below_Nil)
qed


lemma watchDir_absolute:
  "list_all segment csegs \<Longrightarrow> watchDir (absolute csegs) = below csegs @ ''/public_dev''"
  by (cases csegs)
     (simp_all add: watchDir_def path_resolve_def absolute_def below_def path_sep_def segment_def)

lemma mapped_path_lowercase:
  assumes "list_all segment csegs" and "list_all segment segs" and "segment stem"
    and "CHR ''.'' \<notin> set e" and "path_sep \<notin> set e" and "toLowerCase e = e"
    and "\<not> str_includes (below csegs) ''/public_dev''"
  shows "outputFilePath (watchDir (absolute csegs) @ below segs @ path_sep # stem @ CHR ''.'' # e)
           (toLowerCase
              (path_extname (watchDir (absolute csegs) @ below segs @ path_sep # stem @ CHR ''.'' # e)))
         = path_resolve (absolute csegs) ''public'' @ below segs @ path_sep # stem"
proof -
  have "path_extname ((watchDir (absolute csegs) @ below segs) @ path_sep # stem @ CHR ''.'' # e)
      = CHR ''.'' # e"
    using assms(3,4,5) by (rule path_extname_lower)
  then have ext: "toLowerCase
      (path_extname (watchDir (absolute csegs) @ below segs @ path_sep # stem @ CHR ''.'' # e))
      = CHR ''.'' # e"
    using assms(6) by (simp add: toLowerCase_def lower_char_def capitals_def smalls_def)
  have "path_sep \<notin> set (CHR ''.'' # e)"
    using assms(5) by (simp add: path_sep_def)
  with assms(1,2,3) assms(7) show ?thesis
    unfolding ext by (intro outputFilePath_mirrors)
qed

lemma mapped_path_example:
  "outputFilePath ''/proj/public_dev/a/b/img_001.jpg''
     (toLowerCase (path_extname ''/proj/public_dev/a/b/img_001.jpg'')) = ''/proj/public/a/b/img_001''"
  using mapped_path_lowercase [of "[''proj'']" "[''a'', ''b'']" "''img_001''" "''jpg''"]
  by (simp add: segment_def below_def absolute_def watchDir_def path_resolve_def path_sep_def
        toLowerCase_def lower_char_def capitals_def smalls_def)


section \<open>The raster read from a repacked buffer\<close>

lemma length_interleaved: "length (interleaved pixels) = 4 * length pixels"
  by (induction pixels) (auto simp: interleaved_def channels_of_def split: prod.splits)

lemma runs_interleaved:
  "runs (length pixels) 4 (interleaved pixels @ rest) = map channels_of pixels"
proof (induction pixels)
  case Nil
  then show ?case by simp
next
  case (Cons px pixels)
  have "length (channels_of px) = 4"
    by (simp add: channels_of_def split: prod.splits)
  then have "take 4 (channels_of px @ interleaved pixels @ rest) = channels_of px"
    and "drop 4 (channels_of px @ interleaved pixels @ rest) = interleaved pixels @ rest"
    by simp_all
  with Cons.IH show ?case by (simp add: interleaved_def)
qed

lemma snd_branch_after_toFile:
  "snd (swallow (await m
      (\<lambda>u w1. await (fs_stat p w1)
         (\<lambda>beforeSize w2. await (fs_stat q w2) (\<lambda>afterSize w3. (Resolved (), w3)))))) = snd m"
  by (cases m) (auto simp: swallow_def await_def fs_stat_def split: settled.splits option.splits)

lemma snd_after_stats:
  "snd (await m
      (\<lambda>u w1. await (fs_stat p w1)
         (\<lambda>beforeSize w2. await (fs_stat q w2) (\<lambda>afterSize w3. (Resolved (), w3))))) = snd m"
  by (cases m) (auto simp: await_def fs_stat_def split: settled.splits option.splits)


section \<open>The claims\<close>

subsection \<open>Cleanup after a failed job\<close>

text \<open>
  Claim C1: a job that fails after partially writing its output leaves no file at the
  mapped output path, final extension included. The code does not do this. In the audio job
  for \<^verbatim>\<open>/proj/public_dev/song.mp3\<close> the encoder writes two bytes to
  \<^verbatim>\<open>/proj/public/song.aac\<close> and fails; the \<^verbatim>\<open>catch\<close> of line 202 unlinks
  \<^verbatim>\<open>/proj/public/song\<close>, the path without the extension, and the two bytes stay. In the
  image job for \<^verbatim>\<open>/proj/public_dev/a/photo.png\<close> the codec leaves one byte at
  \<^verbatim>\<open>/proj/public/a/photo.avif\<close> and rejects; the \<^verbatim>\<open>catch\<close> of line 118 logs and
  nothing is unlinked after the write.
\<close>

theorem failed_job_keeps_partial_output:
  "files (handleFileChange encoder_dies_midway ''/proj'' ''/proj/public_dev/song.mp3'' project)
     ''/proj/public/song.aac'' = Some [0, 1]
   \<and> calls (handleFileChange encoder_dies_midway ''/proj'' ''/proj/public_dev/song.mp3'' project) =
       [MkdirP ''/proj/public'', Unlink ''/proj/public/song'', MkdirP ''/proj/opt_cache'',
        Exec (audioCommand ''/proj/public_dev/song.mp3'' ''/proj/public/song''),
        Unlink ''/proj/public/song'']
   \<and> files (handleFileChange codec_dies_midway ''/proj'' ''/proj/public_dev/a/photo.png'' project)
       ''/proj/public/a/photo.avif'' = Some [7]
   \<and> calls (handleFileChange codec_dies_midway ''/proj'' ''/proj/public_dev/a/photo.png'' project) =
       [MkdirP ''/proj/public/a'', Unlink ''/proj/public/a/photo'', MkdirP ''/proj/opt_cache'',
        WriteTo ''/proj/public/a/photo.avif'']"
proof -
  have audio:
    "handleFileChange encoder_dies_midway ''/proj'' ''/proj/public_dev/song.mp3'' project =
       project\<lparr>files := (files project)(''/proj/public/song.aac'' \<mapsto> [0, 1]),
               dirs := dirs project \<union> set (ancestors ''/proj/public'')
                 \<union> set (ancestors ''/proj/opt_cache''),
               calls := [MkdirP ''/proj/public'', Unlink ''/proj/public/song'',
                 MkdirP ''/proj/opt_cache'',
                 Exec (audioCommand ''/proj/public_dev/song.mp3'' ''/proj/public/song''),
                 Unlink ''/proj/public/song'']\<rparr>"
    by (simp add: handleFileChange_def ext_song optimise_def out_song dir_song cache_proj Let_def
          swallow_def await_def fs_mkdir_def fs_unlink_def strategist_def imageExtensions_def
          audioExtensions_def audio_branch_def execAsync_def write_all_def
          encoder_dies_midway_def calm_def project_def)
  have image:
    "handleFileChange codec_dies_midway ''/proj'' ''/proj/public_dev/a/photo.png'' project =
       project\<lparr>files := (files project)(''/proj/public/a/photo.avif'' \<mapsto> [7]),
               dirs := dirs project \<union> set (ancestors ''/proj/public/a'')
                 \<union> set (ancestors ''/proj/opt_cache''),
               calls := [MkdirP ''/proj/public/a'', Unlink ''/proj/public/a/photo'',
                 MkdirP ''/proj/opt_cache'', WriteTo ''/proj/public/a/photo.avif'']\<rparr>"
    by (simp add: handleFileChange_def ext_photo optimise_def out_photo dir_photo cache_proj
          format_photo Let_def swallow_def await_def fs_mkdir_def fs_unlink_def strategist_def
          imageExtensions_def image_branch_def toFile_def codec_dies_midway_def calm_def
          project_def)
  show ?thesis
    unfolding audio image by (simp add: project_def)
qed


subsection \<open>The watcher's filter\<close>

text \<open>
  Claim C2: the filter of the watch subscription lets through exactly the paths whose
  extension is in a known category. The function of line 21 does the opposite: it returns
  true, which the watch library reads as "ignore", for the listed extensions. The image
  \<^verbatim>\<open>/proj/public_dev/a/photo.png\<close> is ignored, and the text file
  \<^verbatim>\<open>/proj/public_dev/notes.txt\<close> reaches the handler; \<^verbatim>\<open>.svg\<close> is in none of
  the lists the function tests.
\<close>

theorem ignored_is_inverted:
  "ignored ''/proj/public_dev/a/photo.png''
   \<and> \<not> delivered ''/proj/public_dev/a/photo.png''
   \<and> backfill_matches ''/proj/public_dev/a/photo.png''
   \<and> delivered ''/proj/public_dev/notes.txt''
   \<and> \<not> ignored ''/proj/public_dev/logo.svg''"
  by (simp add: delivered_def ignored_def backfill_matches_def toLowerCase_def path_extname_def
        last_part_def path_sep_def lower_char_def capitals_def smalls_def imageExtensions_def audioExtensions_def
        videoExtensions_def fontExtensions_def)


subsection \<open>The format of a raster image\<close>

text \<open>
  Claim C3, as amended: the format is \<^verbatim>\<open>png\<close> exactly when the path, with the
  working directory cut off its front, holds two separators. For a file \<open>segs\<close> below the
  watch root \<^verbatim>\<open>cwd/public_dev\<close> that is the case exactly when it lies directly in the
  watch root (one segment below it), unless the working directory is \<^verbatim>\<open>/\<close>, where it
  is the case two segments below. Every other raster image is encoded as \<^verbatim>\<open>avif\<close>.
\<close>

theorem image_format_by_depth:
  assumes "\<forall>s\<in>set segs. path_sep \<notin> set s"
  shows "image_format cwd (watchDir cwd @ concat (map ((#) path_sep) segs)) =
           (if length segs = (if cwd = ''/'' then 2 else 1) then ''png'' else ''avif'')"
proof (cases "cwd = ''/''")
  case True
  have "substring_from (''/public_dev'' @ concat (map ((#) path_sep) segs)) (int (length ''/''))
          = ''public_dev'' @ concat (map ((#) path_sep) segs)"
    using substring_from_drop [of "''/''" "''public_dev'' @ concat (map ((#) path_sep) segs)"]
    by simp
  then show ?thesis
    using True seps_below [OF assms]
    by (simp add: image_format_def watchDir_def path_resolve_def length_str_split path_sep_def
          del: str_split.simps)
next
  case False
  have "substring_from (cwd @ ''/public_dev'' @ concat (map ((#) path_sep) segs)) (int (length cwd))
          = ''/public_dev'' @ concat (map ((#) path_sep) segs)"
    by (rule substring_from_drop)
  then show ?thesis
    using False seps_below [OF assms]
    by (simp add: image_format_def watchDir_def path_resolve_def length_str_split path_sep_def
          del: str_split.simps)
qed

text \<open>
  The theorem at \<^verbatim>\<open>/proj/public_dev/icon.png\<close>, at
  \<^verbatim>\<open>/proj/public_dev/a/b/photo.png\<close> and, with the working directory \<^verbatim>\<open>/\<close>, at
  \<^verbatim>\<open>/public_dev/a/icon.png\<close>.
\<close>

theorem image_format_by_depth_witness:
  "image_format ''/proj'' ''/proj/public_dev/icon.png'' = ''png''
   \<and> image_format ''/proj'' ''/proj/public_dev/a/b/photo.png'' = ''avif''
   \<and> image_format ''/'' ''/public_dev/a/icon.png'' = ''png''"
  using image_format_by_depth [of "[''icon.png'']" "''/proj''"]
        image_format_by_depth [of "[''a'', ''b'', ''photo.png'']" "''/proj''"]
        image_format_by_depth [of "[''a'', ''icon.png'']" "''/''"]
  by (simp add: watchDir_def path_resolve_def path_sep_def)

text \<open>
  The claim as stated fails: \<^verbatim>\<open>/proj/public_dev/a/icon.png\<close>, two segments below the
  watch root of the project \<^verbatim>\<open>/proj\<close>, is encoded as \<^verbatim>\<open>avif\<close>.
\<close>

theorem image_format_depth_two_counterexample:
  "image_format ''/proj'' (watchDir ''/proj'' @ ''/a/icon.png'') = ''avif''"
  by (simp add: image_format_def watchDir_def path_resolve_def substring_from_def substring_def
        path_sep_def)


subsection \<open>The repack of an image with an alpha channel\<close>

text \<open>
  Claim C4: for an image with an alpha channel the strategist hands the encoder a raw
  buffer, declared as width by height with 4 channels, whose pixels are the image's: the
  colour channels are the image's colour data and the fourth channel is its alpha data. For
  an image without alpha there is no repack: the encoder is given the source file.

  The buffer is the raw output followed by a second copy of itself (both names of line
  102 are bound to the one \<^verbatim>\<open>data\<close>); the raster that is read from it under the
  declared size is the first copy, pixel for pixel the image.
\<close>

theorem alpha_repack:
  "(ext \<in> set imageExtensions \<longrightarrow>
      strategist sv cwd filePath ext out w = image_branch sv cwd filePath out w)
   \<and> (sharp_metadata sv filePath = Resolved md \<and> hasAlpha md = Some True
        \<and> sharp_raw sv filePath (resizeOptions md) = Resolved (data, iw, ih) \<longrightarrow>
      snd (image_branch sv cwd filePath out w) =
        snd (toFile sv (FromRaw (combinedBuffer data) iw ih 4) (image_format cwd filePath)
               (config (image_format cwd filePath))
               (out @ ''.'' @ image_format cwd filePath) w))
   \<and> (length pixels = iw * ih \<longrightarrow>
      raw_raster (combinedBuffer (interleaved pixels)) iw ih 4 = Some (map channels_of pixels))
   \<and> (sharp_metadata sv filePath = Resolved md \<and> hasAlpha md \<noteq> Some True \<longrightarrow>
      snd (image_branch sv cwd filePath out w) =
        snd (toFile sv (FromFile filePath (resizeOptions md)) (image_format cwd filePath)
               (config (image_format cwd filePath))
               (out @ ''.'' @ image_format cwd filePath) w))"
proof -
  have 1: "strategist sv cwd filePath ext out w = image_branch sv cwd filePath out w"
    if "ext \<in> set imageExtensions"
    using that by (simp add: strategist_def)
  have 2: "snd (image_branch sv cwd filePath out w) =
        snd (toFile sv (FromRaw (combinedBuffer data) iw ih 4) (image_format cwd filePath)
               (config (image_format cwd filePath))
               (out @ ''.'' @ image_format cwd filePath) w)"
    if "sharp_metadata sv filePath = Resolved md" "hasAlpha md = Some True"
       "sharp_raw sv filePath (resizeOptions md) = Resolved (data, iw, ih)"
    using that by (simp add: image_branch_def Let_def snd_branch_after_toFile)
  have 3: "raw_raster (combinedBuffer (interleaved pixels)) iw ih 4 = Some (map channels_of pixels)"
    if "length pixels = iw * ih"
    using that runs_interleaved [of pixels "interleaved pixels"]
    by (simp add: raw_raster_def combinedBuffer_def length_interleaved)
  have 4: "snd (image_branch sv cwd filePath out w) =
        snd (toFile sv (FromFile filePath (resizeOptions md)) (image_format cwd filePath)
               (config (image_format cwd filePath))
               (out @ ''.'' @ image_format cwd filePath) w)"
    if "sharp_metadata sv filePath = Resolved md" "hasAlpha md \<noteq> Some True"
    using that
    by (cases "hasAlpha md") (simp_all add: image_branch_def Let_def snd_branch_after_toFile)
  from 1 2 3 4 show ?thesis by blast
qed

text \<open>
  The theorem at the one-pixel image \<^verbatim>\<open>/proj/public_dev/a/photo.png\<close>: with alpha the
  encoder reads the pixel 10, 20, 30, 40 from the repacked buffer; without alpha it is
  given the file.
\<close>

theorem alpha_repack_witness:
  "strategist calm ''/proj'' ''/proj/public_dev/a/photo.png'' ''.png'' ''/proj/public/a/photo'' project
     = image_branch calm ''/proj'' ''/proj/public_dev/a/photo.png'' ''/proj/public/a/photo'' project
   \<and> files (snd (image_branch calm ''/proj'' ''/proj/public_dev/a/photo.png''
                     ''/proj/public/a/photo'' project))
       ''/proj/public/a/photo.avif'' = Some [10, 20, 30, 40]
   \<and> raw_raster (combinedBuffer [10, 20, 30, 40]) 1 1 4 = Some [[10, 20, 30, 40]]
   \<and> files (snd (image_branch opaque_image ''/proj'' ''/proj/public_dev/a/photo.png''
                     ''/proj/public/a/photo'' project))
       ''/proj/public/a/photo.avif'' = Some [0]"
proof -
  note alpha_case =
    alpha_repack [of "''.png''" calm "''/proj''" "''/proj/public_dev/a/photo.png''"
      "''/proj/public/a/photo''" project
      "\<lparr>width = Some 1, height = Some 1, hasAlpha = Some True\<rparr>"
      "[10, 20, 30, 40]" 1 1 "[(10, 20, 30, 40)]"]
  note opaque_case =
    alpha_repack [of "''.png''" opaque_image "''/proj''" "''/proj/public_dev/a/photo.png''"
      "''/proj/public/a/photo''" project
      "\<lparr>width = Some 1, height = Some 1, hasAlpha = Some False\<rparr>"
      "[10, 20, 30, 40]" 1 1 "[(10, 20, 30, 40)]"]
  have image: "''.png'' \<in> set imageExtensions"
    by (simp add: imageExtensions_def)
  have alpha: "sharp_metadata calm ''/proj/public_dev/a/photo.png'' =
        Resolved \<lparr>width = Some 1, height = Some 1, hasAlpha = Some True\<rparr>
      \<and> hasAlpha \<lparr>width = Some 1, height = Some 1, hasAlpha = Some True\<rparr> = Some True
      \<and> sharp_raw calm ''/proj/public_dev/a/photo.png''
        (resizeOptions \<lparr>width = Some 1, height = Some 1, hasAlpha = Some True\<rparr>) =
        Resolved ([10, 20, 30, 40], 1, 1)"
    by (simp add: calm_def)
  have opaque: "sharp_metadata opaque_image ''/proj/public_dev/a/photo.png'' =
        Resolved \<lparr>width = Some 1, height = Some 1, hasAlpha = Some False\<rparr>
      \<and> hasAlpha \<lparr>width = Some 1, height = Some 1, hasAlpha = Some False\<rparr> \<noteq> Some True"
    by (simp add: opaque_image_def calm_def)
  have size: "length [(10, 20, 30, 40) :: rgba] = 1 * 1"
    by simp
  have pixel: "interleaved [(10, 20, 30, 40)] = [10, 20, 30, 40]"
    and pixels: "map channels_of [(10, 20, 30, 40)] = [[10, 20, 30, 40]]"
    by (simp_all add: interleaved_def channels_of_def)
  have 1: "strategist calm ''/proj'' ''/proj/public_dev/a/photo.png'' ''.png''
        ''/proj/public/a/photo'' project
      = image_branch calm ''/proj'' ''/proj/public_dev/a/photo.png'' ''/proj/public/a/photo''
          project"
    using alpha_case image by blast
  have "snd (image_branch calm ''/proj'' ''/proj/public_dev/a/photo.png''
          ''/proj/public/a/photo'' project) =
        snd (toFile calm (FromRaw (combinedBuffer [10, 20, 30, 40]) 1 1 4)
               (image_format ''/proj'' ''/proj/public_dev/a/photo.png'')
               (config (image_format ''/proj'' ''/proj/public_dev/a/photo.png''))
               (''/proj/public/a/photo'' @ ''.'' @ image_format ''/proj'' ''/proj/public_dev/a/photo.png'')
               project)"
    using alpha_case alpha by blast
  then have 2: "files (snd (image_branch calm ''/proj'' ''/proj/public_dev/a/photo.png''
          ''/proj/public/a/photo'' project)) ''/proj/public/a/photo.avif'' = Some [10, 20, 30, 40]"
    by (simp add: format_photo toFile_def calm_def raw_raster_def combinedBuffer_def)
  have "raw_raster (combinedBuffer (interleaved [(10, 20, 30, 40)])) 1 1 4
      = Some (map channels_of [(10, 20, 30, 40)])"
    using alpha_case size by blast
  then have 3: "raw_raster (combinedBuffer [10, 20, 30, 40]) 1 1 4 = Some [[10, 20, 30, 40]]"
    unfolding pixel pixels .
  have "snd (image_branch opaque_image ''/proj'' ''/proj/public_dev/a/photo.png''
          ''/proj/public/a/photo'' project) =
        snd (toFile opaque_image
               (FromFile ''/proj/public_dev/a/photo.png''
                  (resizeOptions \<lparr>width = Some 1, height = Some 1, hasAlpha = Some False\<rparr>))
               (image_format ''/proj'' ''/proj/public_dev/a/photo.png'')
               (config (image_format ''/proj'' ''/proj/public_dev/a/photo.png''))
               (''/proj/public/a/photo'' @ ''.'' @ image_format ''/proj'' ''/proj/public_dev/a/photo.png'')
               project)"
    using opaque_case opaque by blast
  then have 4: "files (snd (image_branch opaque_image ''/proj'' ''/proj/public_dev/a/photo.png''
          ''/proj/public/a/photo'' project)) ''/proj/public/a/photo.avif'' = Some [0]"
    by (simp add: format_photo toFile_def opaque_image_def calm_def)
  from 1 2 3 4 show ?thesis by blast
qed


subsection \<open>From the backfill pass to live watching\<close>

text \<open>
  Claim C5: the watcher's handlers are attached only when every job of the backfill pass
  has finished. The code attaches them when the job of the last entry of the listing
  settles, whatever the other jobs do. For the listing \<^verbatim>\<open>big.png\<close>,
  \<^verbatim>\<open>font.woff2\<close>, when the job of the font settles first, the handlers are attached
  while the job of entry 0 is still running. For the listing \<^verbatim>\<open>big.png\<close>,
  \<^verbatim>\<open>readme.txt\<close>, whose last entry matches no extension, the only job settles and
  the handlers are never attached.
\<close>

theorem live_before_backfill_done:
  "settle_in_order [''big.png'', ''font.woff2''] [1] = \<lparr>running = [0], live = True\<rparr>
   \<and> settle_in_order [''big.png'', ''readme.txt''] [0] = \<lparr>running = [], live = False\<rparr>"
  by (simp add: settle_in_order_def job_settles_def backfill_start_def backfill_matches_def
        toLowerCase_def path_extname_def last_part_def path_sep_def lower_char_def capitals_def smalls_def
        imageExtensions_def audioExtensions_def videoExtensions_def fontExtensions_def upt_rec)


subsection \<open>The size report\<close>

text \<open>
  Claim C6, as amended: for two known sizes that are both non-zero the report renders the
  percentage \<open>(before - after) / before * 100\<close> with the word \<^verbatim>\<open>reduced\<close> when it
  is positive, \<^verbatim>\<open>gained\<close> when it is negative, and no word and no colour when it is
  zero; when a size is zero or undefined the report is the marker \<^verbatim>\<open>[DIF ERROR]\<close>.
\<close>

theorem getDif_report:
  "(0 < b \<and> 0 < a \<and> a < b \<longrightarrow>
      getDif toFixed (Some b) (Some a) =
        esc # ''[32m['' @ toFixed ((of_nat b - of_nat a) / of_nat b * 100) @ ''% reduced]''
        @ esc # ''[0m'')
   \<and> (0 < b \<and> 0 < a \<and> b < a \<longrightarrow>
      getDif toFixed (Some b) (Some a) =
        esc # ''[31m['' @ toFixed ((of_nat b - of_nat a) / of_nat b * 100) @ ''% gained]''
        @ esc # ''[0m'')
   \<and> (0 < b \<longrightarrow>
      getDif toFixed (Some b) (Some b) = ''['' @ toFixed 0 @ ''% ]'' @ esc # ''[0m'')
   \<and> (b = 0 \<or> a = 0 \<longrightarrow> getDif toFixed (Some b) (Some a) = ''[DIF ERROR]'')
   \<and> getDif toFixed None afterSize = ''[DIF ERROR]''
   \<and> getDif toFixed beforeSize None = ''[DIF ERROR]''"
proof -
  have pos: "0 < ((of_nat b - of_nat a) / of_nat b * 100 :: rat)" if "0 < b" "a < b"
    using that by (simp add: zero_less_divide_iff)
  have neg: "((of_nat b - of_nat a) / of_nat b * 100 :: rat) < 0" if "0 < b" "b < a"
    using that by (simp add: divide_less_0_iff)
  show ?thesis
    using pos neg by (auto simp: getDif_def Let_def split: option.splits)
qed

text \<open>
  The theorem at the sizes 100 and 40, 3 and 4, 7 and 7, 0 and 5, and at 320 and 121, where
  the double of the code is just below the exact 62.1875.
\<close>

theorem getDif_report_witness:
  "getDif toFixed3 (Some 100) (Some 40) = esc # ''[32m[60.000% reduced]'' @ esc # ''[0m''
   \<and> getDif toFixed3 (Some 3) (Some 4) = esc # ''[31m[-33.333% gained]'' @ esc # ''[0m''
   \<and> getDif toFixed3 (Some 7) (Some 7) = ''[0.000% ]'' @ esc # ''[0m''
   \<and> getDif toFixed3 (Some 0) (Some 5) = ''[DIF ERROR]''
   \<and> getDif toFixed3 (Some 320) (Some 121) = esc # ''[32m[62.187% reduced]'' @ esc # ''[0m''"
  using getDif_report [of 100 40 toFixed3] getDif_report [of 3 4 toFixed3]
        getDif_report [of 7 7 toFixed3] getDif_report [of 0 5 toFixed3]
        getDif_report [of 320 121 toFixed3]
  by (simp add: toFixed3_def toFixed_double_def digit_char_def floor_rat_numeral binary64_def
        normal_exponent_numeral round_even_def pow2_def Let_def)

text \<open>
  The claim as stated fails: both sizes are known, 100 bytes before and an empty output
  after, and the report is the error marker instead of a reduction by 100 percent.
\<close>

theorem getDif_zero_size_counterexample:
  "getDif toFixed3 (Some 100) (Some 0) = ''[DIF ERROR]''"
  by (simp add: getDif_def)


subsection \<open>A stale file at the target path\<close>

text \<open>
  Claim C7: before anything is written, a stale file at the exact final target path, final
  extension included, is removed. The code unlinks the path without the extension (line
  65, before a strategist has appended one). In the audio job for
  \<^verbatim>\<open>/proj/public_dev/song.mp3\<close> the stale \<^verbatim>\<open>/proj/public/song.aac\<close> is never
  unlinked: the only unlink before the encoder runs is of \<^verbatim>\<open>/proj/public/song\<close>, and
  when the encoder exits with an error before it writes, the stale bytes are still there
  after the job.
\<close>

theorem stale_target_not_unlinked:
  "calls (handleFileChange encoder_works ''/proj'' ''/proj/public_dev/song.mp3'' project) =
     [MkdirP ''/proj/public'', Unlink ''/proj/public/song'', MkdirP ''/proj/opt_cache'',
      Exec (audioCommand ''/proj/public_dev/song.mp3'' ''/proj/public/song'')]
   \<and> files project ''/proj/public/song.aac'' = Some [9, 9]
   \<and> files (handleFileChange encoder_refuses ''/proj'' ''/proj/public_dev/song.mp3'' project)
       ''/proj/public/song.aac'' = Some [9, 9]
   \<and> calls (handleFileChange encoder_refuses ''/proj'' ''/proj/public_dev/song.mp3'' project) =
       [MkdirP ''/proj/public'', Unlink ''/proj/public/song'', MkdirP ''/proj/opt_cache'',
        Exec (audioCommand ''/proj/public_dev/song.mp3'' ''/proj/public/song''),
        Unlink ''/proj/public/song'']"
proof -
  have works:
    "handleFileChange encoder_works ''/proj'' ''/proj/public_dev/song.mp3'' project =
       project\<lparr>files := (files project)(''/proj/public/song.aac'' \<mapsto> [5]),
               dirs := dirs project \<union> set (ancestors ''/proj/public'')
                 \<union> set (ancestors ''/proj/opt_cache''),
               calls := [MkdirP ''/proj/public'', Unlink ''/proj/public/song'',
                 MkdirP ''/proj/opt_cache'',
                 Exec (audioCommand ''/proj/public_dev/song.mp3'' ''/proj/public/song'')]\<rparr>"
    by (simp add: handleFileChange_def ext_song optimise_def out_song dir_song cache_proj Let_def
          swallow_def await_def fs_mkdir_def fs_unlink_def strategist_def imageExtensions_def
          audioExtensions_def audio_branch_def execAsync_def write_all_def fs_stat_def
          encoder_works_def calm_def project_def)
  have refuses:
    "handleFileChange encoder_refuses ''/proj'' ''/proj/public_dev/song.mp3'' project =
       project\<lparr>dirs := dirs project \<union> set (ancestors ''/proj/public'')
                 \<union> set (ancestors ''/proj/opt_cache''),
               calls := [MkdirP ''/proj/public'', Unlink ''/proj/public/song'',
                 MkdirP ''/proj/opt_cache'',
                 Exec (audioCommand ''/proj/public_dev/song.mp3'' ''/proj/public/song''),
                 Unlink ''/proj/public/song'']\<rparr>"
    by (simp add: handleFileChange_def ext_song optimise_def out_song dir_song cache_proj Let_def
          swallow_def await_def fs_mkdir_def fs_unlink_def strategist_def imageExtensions_def
          audioExtensions_def audio_branch_def execAsync_def write_all_def
          encoder_refuses_def calm_def project_def)
  show ?thesis
    unfolding works refuses by (simp add: project_def)
qed


subsection \<open>The encoder of the video strategist\<close>

text \<open>
  Claim C8: the video strategist runs the capability probe \<^verbatim>\<open>ffmpeg -encoders\<close>
  and then the one command chosen from the text the probe printed, whatever that text is:
  the command uses \<^verbatim>\<open>av1_nvenc\<close> when that name occurs in the text, else
  \<^verbatim>\<open>av1_qsv\<close> when that name occurs, else \<^verbatim>\<open>av1_amf\<close> when that name
  occurs, and the software encoder \<^verbatim>\<open>libaom-av1\<close> exactly when none of the three
  names occurs; each command has its own fixed parameters. When the probe itself fails,
  no encoder is run.
\<close>

theorem encoder_priority:
  "(ext \<in> set videoExtensions \<longrightarrow>
      strategist sv cwd filePath ext out w = video_branch sv filePath out w)
   \<and> (\<not> exit_ok (child sv ''ffmpeg -encoders'') \<longrightarrow>
      calls (snd (video_branch sv filePath out w)) = calls w @ [Exec ''ffmpeg -encoders''])
   \<and> (exit_ok (child sv ''ffmpeg -encoders'') \<and> stdout (child sv ''ffmpeg -encoders'') = encoders \<longrightarrow>
      calls (snd (video_branch sv filePath out w)) =
        calls w @ [Exec ''ffmpeg -encoders'', Exec (ffmpegCommand encoders filePath out)]
      \<and> files (snd (video_branch sv filePath out w)) =
        write_all (written (child sv (ffmpegCommand encoders filePath out)))
          (write_all (written (child sv ''ffmpeg -encoders'')) (files w)))
   \<and> (str_includes encoders ''av1_nvenc'' \<longrightarrow>
      ffmpegCommand encoders filePath out =
        ''ffmpeg -i '' @ dq @ filePath @ dq
        @ '' -c:v av1_nvenc -preset p7 -cq 30 -b:v 0 '' @ dq @ out @ dq @ ''.mp4 -y'')
   \<and> (\<not> str_includes encoders ''av1_nvenc'' \<and> str_includes encoders ''av1_qsv'' \<longrightarrow>
      ffmpegCommand encoders filePath out =
        ''ffmpeg -init_hw_device vaapi=va:/dev/dri/renderD128 -i '' @ dq @ filePath @ dq
        @ '' -c:v av1_qsv -preset veryslow -q:v 30 -b:v 0 '' @ dq @ out @ dq @ ''.mp4 -y'')
   \<and> (\<not> str_includes encoders ''av1_nvenc'' \<and> \<not> str_includes encoders ''av1_qsv''
        \<and> str_includes encoders ''av1_amf'' \<longrightarrow>
      ffmpegCommand encoders filePath out =
        ''ffmpeg -i '' @ dq @ filePath @ dq
        @ '' -c:v av1_amf -usage quality -rc vbr_quality -q:v 20 -b:v 0 '' @ dq @ out @ dq
        @ ''.mp4 -y'')
   \<and> (ffmpegCommand encoders filePath out =
        ''ffmpeg -i '' @ dq @ filePath @ dq
        @ '' -c:v libaom-av1 -crf 30 -b:v 0 -preset slow '' @ dq @ out @ dq @ ''.mp4 -y''
      \<longleftrightarrow> \<not> str_includes encoders ''av1_nvenc'' \<and> \<not> str_includes encoders ''av1_qsv''
           \<and> \<not> str_includes encoders ''av1_amf'')"
proof -
  have 1: "strategist sv cwd filePath ext out w = video_branch sv filePath out w"
    if "ext \<in> set videoExtensions"
    using that
    by (auto simp: strategist_def videoExtensions_def imageExtensions_def audioExtensions_def)
  have 2: "calls (snd (video_branch sv filePath out w)) = calls w @ [Exec ''ffmpeg -encoders'']"
    if "\<not> exit_ok (child sv ''ffmpeg -encoders'')"
    using that by (simp add: video_branch_def execAsync_def await_def Let_def)
  have 3: "snd (video_branch sv filePath out w) =
      snd (execAsync sv (ffmpegCommand encoders filePath out)
             (snd (execAsync sv ''ffmpeg -encoders'' w)))"
    if "exit_ok (child sv ''ffmpeg -encoders'')" "stdout (child sv ''ffmpeg -encoders'') = encoders"
    using that snd_after_stats [of "execAsync sv (ffmpegCommand encoders filePath out)
        (snd (execAsync sv ''ffmpeg -encoders'' w))"]
    by (simp add: video_branch_def execAsync_def [of sv "''ffmpeg -encoders''"] await_def Let_def)
  have 4: "calls (snd (video_branch sv filePath out w)) =
        calls w @ [Exec ''ffmpeg -encoders'', Exec (ffmpegCommand encoders filePath out)]
      \<and> files (snd (video_branch sv filePath out w)) =
        write_all (written (child sv (ffmpegCommand encoders filePath out)))
          (write_all (written (child sv ''ffmpeg -encoders'')) (files w))"
    if "exit_ok (child sv ''ffmpeg -encoders'')" "stdout (child sv ''ffmpeg -encoders'') = encoders"
    unfolding 3 [OF that] by (simp add: execAsync_def Let_def)
  have 5: "(str_includes encoders ''av1_nvenc'' \<longrightarrow>
      ffmpegCommand encoders filePath out =
        ''ffmpeg -i '' @ dq @ filePath @ dq
        @ '' -c:v av1_nvenc -preset p7 -cq 30 -b:v 0 '' @ dq @ out @ dq @ ''.mp4 -y'')
   \<and> (\<not> str_includes encoders ''av1_nvenc'' \<and> str_includes encoders ''av1_qsv'' \<longrightarrow>
      ffmpegCommand encoders filePath out =
        ''ffmpeg -init_hw_device vaapi=va:/dev/dri/renderD128 -i '' @ dq @ filePath @ dq
        @ '' -c:v av1_qsv -preset veryslow -q:v 30 -b:v 0 '' @ dq @ out @ dq @ ''.mp4 -y'')
   \<and> (\<not> str_includes encoders ''av1_nvenc'' \<and> \<not> str_includes encoders ''av1_qsv''
        \<and> str_includes encoders ''av1_amf'' \<longrightarrow>
      ffmpegCommand encoders filePath out =
        ''ffmpeg -i '' @ dq @ filePath @ dq
        @ '' -c:v av1_amf -usage quality -rc vbr_quality -q:v 20 -b:v 0 '' @ dq @ out @ dq
        @ ''.mp4 -y'')
   \<and> (ffmpegCommand encoders filePath out =
        ''ffmpeg -i '' @ dq @ filePath @ dq
        @ '' -c:v libaom-av1 -crf 30 -b:v 0 -preset slow '' @ dq @ out @ dq @ ''.mp4 -y''
      \<longleftrightarrow> \<not> str_includes encoders ''av1_nvenc'' \<and> \<not> str_includes encoders ''av1_qsv''
           \<and> \<not> str_includes encoders ''av1_amf'')"
    by (simp add: ffmpegCommand_def dq_def)
  from 1 2 4 5 show ?thesis by blast
qed

text \<open>
  The theorem at the video \<^verbatim>\<open>/proj/public_dev/clip.mp4\<close> on four hosts, whose probes
  list all three hardware encoders, the second and the third, the third alone, and none,
  and on a host whose probe fails.
\<close>

theorem encoder_priority_witness:
  "strategist (host_listing ''V....D av1_amf V....D av1_nvenc V....D av1_qsv'')
       ''/proj'' ''/proj/public_dev/clip.mp4'' ''.mp4'' ''/proj/public/clip'' project
     = video_branch (host_listing ''V....D av1_amf V....D av1_nvenc V....D av1_qsv'')
         ''/proj/public_dev/clip.mp4'' ''/proj/public/clip'' project
   \<and> calls (snd (video_branch encoder_refuses ''/proj/public_dev/clip.mp4'' ''/proj/public/clip''
        project)) = [Exec ''ffmpeg -encoders'']
   \<and> calls (snd (video_branch (host_listing ''V....D av1_amf V....D av1_nvenc V....D av1_qsv'')
       ''/proj/public_dev/clip.mp4'' ''/proj/public/clip'' project)) =
     [Exec ''ffmpeg -encoders'',
      Exec (''ffmpeg -i '' @ dq @ ''/proj/public_dev/clip.mp4'' @ dq
            @ '' -c:v av1_nvenc -preset p7 -cq 30 -b:v 0 '' @ dq @ ''/proj/public/clip'' @ dq @ ''.mp4 -y'')]
   \<and> calls (snd (video_branch (host_listing ''V....D av1_amf V....D av1_qsv'')
       ''/proj/public_dev/clip.mp4'' ''/proj/public/clip'' project)) =
     [Exec ''ffmpeg -encoders'',
      Exec (''ffmpeg -init_hw_device vaapi=va:/dev/dri/renderD128 -i '' @ dq @ ''/proj/public_dev/clip.mp4'' @ dq
            @ '' -c:v av1_qsv -preset veryslow -q:v 30 -b:v 0 '' @ dq @ ''/proj/public/clip'' @ dq @ ''.mp4 -y'')]
   \<and> calls (snd (video_branch (host_listing ''V....D av1_amf V....D libaom-av1'')
       ''/proj/public_dev/clip.mp4'' ''/proj/public/clip'' project)) =
     [Exec ''ffmpeg -encoders'',
      Exec (''ffmpeg -i '' @ dq @ ''/proj/public_dev/clip.mp4'' @ dq
            @ '' -c:v av1_amf -usage quality -rc vbr_quality -q:v 20 -b:v 0 '' @ dq @ ''/proj/public/clip'' @ dq
            @ ''.mp4 -y'')]
   \<and> calls (snd (video_branch (host_listing ''V....D libaom-av1 V....D libx264'')
       ''/proj/public_dev/clip.mp4'' ''/proj/public/clip'' project)) =
     [Exec ''ffmpeg -encoders'',
      Exec (''ffmpeg -i '' @ dq @ ''/proj/public_dev/clip.mp4'' @ dq
            @ '' -c:v libaom-av1 -crf 30 -b:v 0 -preset slow '' @ dq @ ''/proj/public/clip'' @ dq @ ''.mp4 -y'')]
   \<and> files (snd (video_branch (host_listing ''V....D libaom-av1 V....D libx264'')
        ''/proj/public_dev/clip.mp4'' ''/proj/public/clip'' project)) ''/proj/public/clip.mp4''
       = Some [5]
   \<and> ffmpegCommand ''V....D av1_amf V....D av1_nvenc V....D av1_qsv''
       ''/proj/public_dev/clip.mp4'' ''/proj/public/clip'' =
     ''ffmpeg -i '' @ dq @ ''/proj/public_dev/clip.mp4'' @ dq
     @ '' -c:v av1_nvenc -preset p7 -cq 30 -b:v 0 '' @ dq @ ''/proj/public/clip'' @ dq @ ''.mp4 -y''
   \<and> ffmpegCommand ''V....D av1_amf V....D av1_qsv''
       ''/proj/public_dev/clip.mp4'' ''/proj/public/clip'' =
     ''ffmpeg -init_hw_device vaapi=va:/dev/dri/renderD128 -i '' @ dq @ ''/proj/public_dev/clip.mp4'' @ dq
     @ '' -c:v av1_qsv -preset veryslow -q:v 30 -b:v 0 '' @ dq @ ''/proj/public/clip'' @ dq @ ''.mp4 -y''
   \<and> ffmpegCommand ''V....D av1_amf V....D libaom-av1''
       ''/proj/public_dev/clip.mp4'' ''/proj/public/clip'' =
     ''ffmpeg -i '' @ dq @ ''/proj/public_dev/clip.mp4'' @ dq
     @ '' -c:v av1_amf -usage quality -rc vbr_quality -q:v 20 -b:v 0 '' @ dq @ ''/proj/public/clip'' @ dq
     @ ''.mp4 -y''
   \<and> ffmpegCommand ''V....D libaom-av1 V....D libx264''
       ''/proj/public_dev/clip.mp4'' ''/proj/public/clip'' =
     ''ffmpeg -i '' @ dq @ ''/proj/public_dev/clip.mp4'' @ dq
     @ '' -c:v libaom-av1 -crf 30 -b:v 0 -preset slow '' @ dq @ ''/proj/public/clip'' @ dq @ ''.mp4 -y''"
proof -
  note host0 =
    encoder_priority [where sv = "host_listing ''V....D av1_amf V....D av1_nvenc V....D av1_qsv''"
      and encoders = "''V....D av1_amf V....D av1_nvenc V....D av1_qsv''"
      and filePath = "''/proj/public_dev/clip.mp4''" and out = "''/proj/public/clip''" and w = project
      and ext = "''.mp4''" and cwd = "''/proj''"]
  note host1 =
    encoder_priority [where sv = "host_listing ''V....D av1_amf V....D av1_qsv''"
      and encoders = "''V....D av1_amf V....D av1_qsv''"
      and filePath = "''/proj/public_dev/clip.mp4''" and out = "''/proj/public/clip''" and w = project
      and ext = "''.mp4''" and cwd = "''/proj''"]
  note host2 =
    encoder_priority [where sv = "host_listing ''V....D av1_amf V....D libaom-av1''"
      and encoders = "''V....D av1_amf V....D libaom-av1''"
      and filePath = "''/proj/public_dev/clip.mp4''" and out = "''/proj/public/clip''" and w = project
      and ext = "''.mp4''" and cwd = "''/proj''"]
  note host3 =
    encoder_priority [where sv = "host_listing ''V....D libaom-av1 V....D libx264''"
      and encoders = "''V....D libaom-av1 V....D libx264''"
      and filePath = "''/proj/public_dev/clip.mp4''" and out = "''/proj/public/clip''" and w = project
      and ext = "''.mp4''" and cwd = "''/proj''"]
  note broken =
    encoder_priority [where sv = encoder_refuses and filePath = "''/proj/public_dev/clip.mp4''"
      and out = "''/proj/public/clip''" and w = project]
  have video: "''.mp4'' \<in> set videoExtensions"
    by (simp add: videoExtensions_def)
  have fails: "\<not> exit_ok (child encoder_refuses ''ffmpeg -encoders'')"
    by (simp add: encoder_refuses_def calm_def)
  have probe: "exit_ok (child (host_listing listing) ''ffmpeg -encoders'')
      \<and> stdout (child (host_listing listing) ''ffmpeg -encoders'') = listing" for listing
    by (simp add: host_listing_def calm_def)
  have silent: "written (child (host_listing listing) ''ffmpeg -encoders'') = []" for listing
    by (simp add: host_listing_def calm_def)
  have start: "calls project = []"
    by (simp add: project_def)
  have cmd0: "ffmpegCommand ''V....D av1_amf V....D av1_nvenc V....D av1_qsv''
      ''/proj/public_dev/clip.mp4'' ''/proj/public/clip'' =
        ''ffmpeg -i '' @ dq @ ''/proj/public_dev/clip.mp4'' @ dq
        @ '' -c:v av1_nvenc -preset p7 -cq 30 -b:v 0 '' @ dq @ ''/proj/public/clip'' @ dq @ ''.mp4 -y''"
    using host0 by simp
  have run0: "calls (snd (video_branch (host_listing ''V....D av1_amf V....D av1_nvenc V....D av1_qsv'')
      ''/proj/public_dev/clip.mp4'' ''/proj/public/clip'' project)) =
      [Exec ''ffmpeg -encoders'',
       Exec (ffmpegCommand ''V....D av1_amf V....D av1_nvenc V....D av1_qsv''
         ''/proj/public_dev/clip.mp4'' ''/proj/public/clip'')]"
    using host0 probe [of "''V....D av1_amf V....D av1_nvenc V....D av1_qsv''"] start by simp
  have cmd1: "ffmpegCommand ''V....D av1_amf V....D av1_qsv''
      ''/proj/public_dev/clip.mp4'' ''/proj/public/clip'' =
        ''ffmpeg -init_hw_device vaapi=va:/dev/dri/renderD128 -i '' @ dq @ ''/proj/public_dev/clip.mp4'' @ dq
        @ '' -c:v av1_qsv -preset veryslow -q:v 30 -b:v 0 '' @ dq @ ''/proj/public/clip'' @ dq @ ''.mp4 -y''"
    using host1 by simp
  have run1: "calls (snd (video_branch (host_listing ''V....D av1_amf V....D av1_qsv'')
      ''/proj/public_dev/clip.mp4'' ''/proj/public/clip'' project)) =
      [Exec ''ffmpeg -encoders'',
       Exec (ffmpegCommand ''V....D av1_amf V....D av1_qsv''
         ''/proj/public_dev/clip.mp4'' ''/proj/public/clip'')]"
    using host1 probe [of "''V....D av1_amf V....D av1_qsv''"] start by simp
  have cmd2: "ffmpegCommand ''V....D av1_amf V....D libaom-av1''
      ''/proj/public_dev/clip.mp4'' ''/proj/public/clip'' =
        ''ffmpeg -i '' @ dq @ ''/proj/public_dev/clip.mp4'' @ dq
        @ '' -c:v av1_amf -usage quality -rc vbr_quality -q:v 20 -b:v 0 '' @ dq @ ''/proj/public/clip'' @ dq
        @ ''.mp4 -y''"
    using host2 by simp
  have run2: "calls (snd (video_branch (host_listing ''V....D av1_amf V....D libaom-av1'')
      ''/proj/public_dev/clip.mp4'' ''/proj/public/clip'' project)) =
      [Exec ''ffmpeg -encoders'',
       Exec (ffmpegCommand ''V....D av1_amf V....D libaom-av1''
         ''/proj/public_dev/clip.mp4'' ''/proj/public/clip'')]"
    using host2 probe [of "''V....D av1_amf V....D libaom-av1''"] start by simp
  have cmd3: "ffmpegCommand ''V....D libaom-av1 V....D libx264''
      ''/proj/public_dev/clip.mp4'' ''/proj/public/clip'' =
        ''ffmpeg -i '' @ dq @ ''/proj/public_dev/clip.mp4'' @ dq
        @ '' -c:v libaom-av1 -crf 30 -b:v 0 -preset slow '' @ dq @ ''/proj/public/clip'' @ dq @ ''.mp4 -y''"
    using host3 by simp
  have run3: "calls (snd (video_branch (host_listing ''V....D libaom-av1 V....D libx264'')
      ''/proj/public_dev/clip.mp4'' ''/proj/public/clip'' project)) =
      [Exec ''ffmpeg -encoders'',
       Exec (ffmpegCommand ''V....D libaom-av1 V....D libx264''
         ''/proj/public_dev/clip.mp4'' ''/proj/public/clip'')]"
    using host3 probe [of "''V....D libaom-av1 V....D libx264''"] start by simp
  have first: "strategist (host_listing ''V....D av1_amf V....D av1_nvenc V....D av1_qsv'')
        ''/proj'' ''/proj/public_dev/clip.mp4'' ''.mp4'' ''/proj/public/clip'' project
      = video_branch (host_listing ''V....D av1_amf V....D av1_nvenc V....D av1_qsv'')
          ''/proj/public_dev/clip.mp4'' ''/proj/public/clip'' project"
    using host0 video by blast
  have none: "calls (snd (video_branch encoder_refuses ''/proj/public_dev/clip.mp4'' ''/proj/public/clip''
        project)) = [Exec ''ffmpeg -encoders'']"
    using broken fails start by simp
  have "files (snd (video_branch (host_listing ''V....D libaom-av1 V....D libx264'')
        ''/proj/public_dev/clip.mp4'' ''/proj/public/clip'' project)) =
      write_all (written (child (host_listing ''V....D libaom-av1 V....D libx264'')
          (ffmpegCommand ''V....D libaom-av1 V....D libx264''
             ''/proj/public_dev/clip.mp4'' ''/proj/public/clip'')))
        (write_all
           (written (child (host_listing ''V....D libaom-av1 V....D libx264'') ''ffmpeg -encoders''))
           (files project))"
    using host3 probe [of "''V....D libaom-av1 V....D libx264''"] by blast
  then have encoded: "files (snd (video_branch (host_listing ''V....D libaom-av1 V....D libx264'')
        ''/proj/public_dev/clip.mp4'' ''/proj/public/clip'' project))
      ''/proj/public/clip.mp4'' = Some [5]"
    unfolding cmd3 silent by (simp add: host_listing_def calm_def write_all_def dq_def)
  show ?thesis
    using first none run0 run1 run2 run3 encoded cmd0 cmd1 cmd2 cmd3 by simp
qed


subsection \<open>The mapped output path\<close>

text \<open>
  Claim C9: the output path of an input under the watch root keeps the directory segments
  and does not end in the input's extension. The code strips the lowercased extension,
  and \<^verbatim>\<open>path.basename\<close> compares case-sensitively: for
  \<^verbatim>\<open>/proj/public_dev/a/IMG_001.JPG\<close> the extension \<^verbatim>\<open>.jpg\<close> is stripped from
  nothing, and the mapped path is \<^verbatim>\<open>/proj/public/a/IMG_001.JPG\<close>.
\<close>

theorem uppercase_extension_kept:
  "toLowerCase (path_extname ''/proj/public_dev/a/IMG_001.JPG'') = ''.jpg''
   \<and> outputFilePath ''/proj/public_dev/a/IMG_001.JPG''
        (toLowerCase (path_extname ''/proj/public_dev/a/IMG_001.JPG'')) =
      ''/proj/public/a/IMG_001.JPG''
   \<and> outputFilePath ''/proj/public_dev/a/img_001.jpg''
        (toLowerCase (path_extname ''/proj/public_dev/a/img_001.jpg'')) =
      ''/proj/public/a/img_001''"
  by (simp add: toLowerCase_def path_extname_def lower_char_def capitals_def smalls_def outputFilePath_def
        lastIndexOf_def substring_def path_sep_def path_basename_def last_part_def
        path_join_def path_normalize_def)


subsection \<open>What every call of \<^verbatim>\<open>optimise\<close> does first\<close>

text \<open>
  Claim C10: for every path and every extension, known or not, \<^verbatim>\<open>optimise\<close> first
  asks for the mirrored output directory and then unlinks the mapped output path without
  extension, before any category is tested; a rejection of that \<^verbatim>\<open>mkdir\<close> stops
  nothing. The first three calls of every run are these two and the \<^verbatim>\<open>mkdir\<close> of the
  cache directory; the output directory exists afterwards unless its \<^verbatim>\<open>mkdir\<close>
  rejected; for an extension of no category the only change to the files is that the
  mapped output path is gone; and for every extension no file is at that path after the
  job, unless a child process wrote one there.
\<close>

theorem optimise_prologue:
  "(\<exists>rest. calls (snd (optimise sv cwd filePath ext w)) =
       calls w @ [MkdirP (outputDir (outputFilePath filePath ext)),
                  Unlink (outputFilePath filePath ext), MkdirP (cacheDir cwd)] @ rest)
   \<and> (\<not> mkdir_rejects sv (outputDir (outputFilePath filePath ext)) \<longrightarrow>
        set (ancestors (outputDir (outputFilePath filePath ext)))
          \<subseteq> dirs (snd (optimise sv cwd filePath ext w)))
   \<and> (ext \<noteq> ''.svg'' \<and> ext \<notin> set imageExtensions \<and> ext \<notin> set audioExtensions
        \<and> ext \<notin> set videoExtensions \<and> ext \<notin> set fontExtensions \<longrightarrow>
        files (snd (optimise sv cwd filePath ext w)) =
          (files w)(outputFilePath filePath ext := None))
   \<and> ((\<forall>c. outputFilePath filePath ext \<notin> fst ` set (written (child sv c))) \<longrightarrow>
        files (snd (optimise sv cwd filePath ext w)) (outputFilePath filePath ext) = None)"
proof -
  define out where "out = outputFilePath filePath ext"
  define w2 where "w2 = snd (fs_unlink out (snd (fs_mkdir sv (outputDir out) w)))"
  define w' where "w' = snd (optimise sv cwd filePath ext w)"
  have ext: "extends (w2\<lparr>calls := calls w2 @ [MkdirP (cacheDir cwd)]\<rparr>) w'"
    unfolding w2_def out_def w'_def by (rule extends_optimise_tail)
  have c2: "calls w2 = calls w @ [MkdirP (outputDir out), Unlink out]"
    unfolding w2_def by (rule prologue_calls)
  from extends_calls [OF ext] c2
  have 1: "\<exists>rest. calls w' =
      calls w @ [MkdirP (outputDir out), Unlink out, MkdirP (cacheDir cwd)] @ rest"
    by auto
  have 2: "set (ancestors (outputDir out)) \<subseteq> dirs w'" if "\<not> mkdir_rejects sv (outputDir out)"
    using prologue_dirs [OF that, of out w] extends_dirs [OF ext] by (auto simp: w2_def)
  have 3: "files w' = (files w)(out := None)"
    if "ext \<noteq> ''.svg''" "ext \<notin> set imageExtensions" "ext \<notin> set audioExtensions"
       "ext \<notin> set videoExtensions" "ext \<notin> set fontExtensions"
  proof -
    have "strategist sv cwd filePath ext out w3 = (Resolved (), w3)" for w3
      using that by (simp add: strategist_def)
    then have "files w' = files w2"
      using optimise_rejected [of sv cwd filePath ext w] optimise_resolved [of sv cwd filePath ext w]
      by (cases "mkdir_rejects sv (cacheDir cwd)")
         (simp_all add: w'_def w2_def out_def fs_mkdir_def [of sv "cacheDir cwd"])
    then show ?thesis by (simp add: w2_def prologue_files)
  qed
  have 4: "files w' out = None" if "\<forall>c. out \<notin> fst ` set (written (child sv c))"
    using that unfolding out_def w'_def by (rule optimise_output_path_gone)
  from 1 2 3 4 show ?thesis unfolding out_def w'_def by blast
qed

text \<open>
  The theorem at \<^verbatim>\<open>/proj/public_dev/notes.txt\<close>, an extension of no category,
  and at \<^verbatim>\<open>/proj/public_dev/notes.mp3\<close>, an audio file: the directory
  \<^verbatim>\<open>/proj/public\<close> is made and the file \<^verbatim>\<open>/proj/public/notes\<close> is removed.
\<close>

theorem optimise_prologue_witness:
  "take 3 (calls (snd (optimise calm ''/proj'' ''/proj/public_dev/notes.txt'' ''.txt'' project))) =
     [MkdirP ''/proj/public'', Unlink ''/proj/public/notes'', MkdirP ''/proj/opt_cache'']
   \<and> ''/proj/public'' \<in> dirs (snd (optimise calm ''/proj'' ''/proj/public_dev/notes.txt'' ''.txt'' project))
   \<and> files project ''/proj/public/notes'' = Some [6]
   \<and> files (snd (optimise calm ''/proj'' ''/proj/public_dev/notes.txt'' ''.txt'' project)) =
       (files project)(''/proj/public/notes'' := None)
   \<and> files (snd (optimise encoder_works ''/proj'' ''/proj/public_dev/notes.mp3'' ''.mp3'' project))
       ''/proj/public/notes'' = None"
proof -
  have anc: "''/proj/public'' \<in> set (ancestors ''/proj/public'')"
    by (simp add: ancestors_def path_sep_def upt_rec)
  have rej: "\<not> mkdir_rejects calm ''/proj/public''"
    by (simp add: calm_def)
  have unknown: "''.txt'' \<noteq> ''.svg'' \<and> ''.txt'' \<notin> set imageExtensions
      \<and> ''.txt'' \<notin> set audioExtensions \<and> ''.txt'' \<notin> set videoExtensions
      \<and> ''.txt'' \<notin> set fontExtensions"
    by (simp add: imageExtensions_def audioExtensions_def videoExtensions_def fontExtensions_def)
  have quiet: "\<forall>c. ''/proj/public/notes'' \<notin> fst ` set (written (child encoder_works c))"
    by (simp add: encoder_works_def calm_def)
  have start: "calls project = []" and stale: "files project ''/proj/public/notes'' = Some [6]"
    by (simp_all add: project_def)
  show ?thesis
    using optimise_prologue [of calm "''/proj''" "''/proj/public_dev/notes.txt''" "''.txt''" project]
      optimise_prologue [of encoder_works "''/proj''" "''/proj/public_dev/notes.mp3''" "''.mp3''"
        project]
      anc rej unknown quiet start stale
    by (auto simp: out_notes out_notes_mp3 dir_notes cache_proj)
qed

end
